theory Spec2Isabelle
  imports Complex_Main "HOL-Library.Word" "HOL-Library.Multiset"
begin

unbundle bit_operations_syntax

section \<open>Data model of the phantom selector (tapdance/phantoms/phantoms.go)\<close>

type_synonym byte = "8 word"

text \<open>Go's \<open>net.IP\<close> and \<open>net.IPMask\<close> are byte slices; \<open>net.IPNet\<close> is a struct of both.\<close>

type_synonym IP = "byte list"
type_synonym IPMask = "byte list"

record IPNet =
  IP :: IP
  Mask :: IPMask

text \<open>
  \<open>Weight\<close> is a \<open>float32\<close> in the source. Every finite float is a rational number, and
  the only operation the selector applies to a weight is the conversion \<open>uint(Weight)\<close>,
  so a weight is modelled by the rational it denotes (NaN and infinities are left out).
\<close>

record ConjurePhantomSubnet =
  Weight :: rat
  Subnets :: "string list"

record SubnetConfig =
  WeightedSubnets :: "ConjurePhantomSubnet list"

text \<open>
  Every error return of the package is a constructor; the two \<open>fmt.Errorf\<close> wrappers keep
  the wrapped error. The last three constructors are Go run-time panics, not returned errors.
\<close>

datatype failure =
    NoSubnetsProvided
  | CIDRParseError
  | FilterRejected
  | FailedToParseSubnets failure
  | FailedToParse
  | NoValidAddresses
  | VarintError
  | FailedToChooseIP failure
  | NoRangeFound
  | NilDereference
  | IndexOutOfRange
  | IntnInvalidArgument

fun is_panic :: "failure \<Rightarrow> bool" where
  "is_panic NilDereference = True"
| "is_panic IndexOutOfRange = True"
| "is_panic IntnInvalidArgument = True"
| "is_panic _ = False"

section \<open>The library functions the selector calls\<close>

subsection \<open>math/big\<close>

text \<open>
  A \<open>big.Int\<close> is an \<open>int\<close>. \<open>SetBytes\<close> reads a big-endian unsigned integer,
  \<open>Bytes\<close> writes the absolute value big-endian with no leading zero byte (the empty
  slice for 0), and \<open>Exp\<close> with a nil modulus returns 1 when the exponent is not positive.
\<close>

definition SetBytes :: "byte list \<Rightarrow> int" where
  "SetBytes buf = foldl (\<lambda>acc b. acc * 256 + uint b) 0 buf"

fun Bytes_nat :: "nat \<Rightarrow> byte list" where
  "Bytes_nat n = (if n = 0 then [] else Bytes_nat (n div 256) @ [of_nat (n mod 256)])"

declare Bytes_nat.simps [simp del]

definition Bytes :: "int \<Rightarrow> byte list" where
  "Bytes x = Bytes_nat (nat \<bar>x\<bar>)"

definition Exp :: "int \<Rightarrow> int \<Rightarrow> int" where
  "Exp x y = (if y \<le> 0 then 1 else x ^ nat y)"

subsection \<open>net\<close>

definition v4InV6Prefix :: "byte list" where
  "v4InV6Prefix = [0, 0, 0, 0, 0, 0, 0, 0, 0, 0, 0xff, 0xff]"

definition To4 :: "IP \<Rightarrow> IP option" where
  "To4 ip =
     (if length ip = 4 then Some ip
      else if length ip = 16 \<and> list_all (\<lambda>b. b = 0) (take 10 ip)
              \<and> ip ! 10 = 0xff \<and> ip ! 11 = 0xff
      then Some (drop 12 ip)
      else None)"

definition To16 :: "IP \<Rightarrow> IP option" where
  "To16 ip =
     (if length ip = 4 then Some (v4InV6Prefix @ ip)
      else if length ip = 16 then Some ip
      else None)"

text \<open>The inner loop of \<open>simpleMaskLength\<close>: \<open>for v&0x80 != 0 { n++; v <<= 1 }\<close>.\<close>

function leading_ones :: "int \<Rightarrow> byte \<Rightarrow> int \<times> byte" where
  "leading_ones n v =
     (if v AND 0x80 \<noteq> 0 then leading_ones (n + 1) (push_bit 1 v) else (n, v))"
  by pat_completeness auto
termination
proof (relation "measure (\<lambda>(n, v). unat v)")
  show "wf (measure (\<lambda>(n :: int, v :: byte). unat v))"
    by simp
next
  fix n :: int and v :: byte
  assume a: "v AND 0x80 \<noteq> 0"
  have e: "(0x80 :: byte) = 2 ^ 7"
    by simp
  have "bit v 7"
    using a unfolding e by (simp only: and_exp_eq_0_iff_not_bit not_not)
  then have "bit (unat v) 7"
    by (simp add: bit_unsigned_iff)
  then have o: "odd (unat v div 2 ^ 7)"
    using bit_iff_odd [of "unat v" 7] by blast
  have "unat v div 2 ^ 7 \<noteq> 0"
  proof
    assume "unat v div 2 ^ 7 = 0"
    with o show False by simp
  qed
  then have lo: "128 \<le> unat v"
    by simp
  have hi: "unat v < 256"
    using unsigned_less [of v] by simp
  have sh: "unat (v * 2) = (2 * unat v) mod 256"
    by (simp add: unat_word_ariths mult.commute)
  have "(2 * unat v) mod 256 = 2 * unat v - 256"
    using lo hi by (simp add: mod_if)
  then have "unat (v * 2) < unat v"
    using lo hi sh by linarith
  then show "((n + 1, push_bit 1 v), (n, v)) \<in> measure (\<lambda>(n, v). unat v)"
    by simp
qed

text \<open>
  \<open>simpleMaskLength\<close>: the number of leading one bits when the mask is ones followed by
  zeros, and -1 otherwise. \<open>n\<close> is the running count of the outer loop.
\<close>

fun simpleMaskLength_loop :: "int \<Rightarrow> IPMask \<Rightarrow> int" where
  "simpleMaskLength_loop n [] = n"
| "simpleMaskLength_loop n (v # rest) =
     (if v = 0xff then simpleMaskLength_loop (n + 8) rest
      else (case leading_ones n v of
              (n', v') \<Rightarrow>
                if v' \<noteq> 0 then - 1
                else if list_ex (\<lambda>b. b \<noteq> 0) rest then - 1
                else n'))"

definition simpleMaskLength :: "IPMask \<Rightarrow> int" where
  "simpleMaskLength m = simpleMaskLength_loop 0 m"

text \<open>\<open>IPMask.Size\<close> returns \<open>(ones, bits)\<close>, and \<open>(0, 0)\<close> for a mask not in canonical form.\<close>

definition Mask_Size :: "IPMask \<Rightarrow> int \<times> int" where
  "Mask_Size m =
     (let ones = simpleMaskLength m; bits = int (length m) * 8
      in if ones = - 1 then (0, 0) else (ones, bits))"

text \<open>
  \<open>IPNet.Contains\<close> with its helper \<open>networkNumberAndMask\<close>: the address, reduced to four
  bytes when it is an IPv4 address, must have the length of the network number and agree
  with it under the mask. A nil slice is \<open>[]\<close>.
\<close>

definition networkNumberAndMask :: "IPNet \<Rightarrow> IP \<times> IPMask" where
  "networkNumberAndMask n =
     (let ip = (case To4 (IP n) of Some v4 \<Rightarrow> v4 | None \<Rightarrow> IP n)
      in if To4 (IP n) = None \<and> length ip \<noteq> 16 then ([], [])
         else if length (Mask n) = 4 then
           (if length ip \<noteq> 4 then ([], []) else (ip, Mask n))
         else if length (Mask n) = 16 then
           (if length ip = 4 then (ip, drop 12 (Mask n)) else (ip, Mask n))
         else ([], []))"

definition Contains :: "IPNet \<Rightarrow> IP \<Rightarrow> bool" where
  "Contains n ip =
     (case networkNumberAndMask n of
        (nn, m) \<Rightarrow>
          (let ip' = (case To4 ip of Some x \<Rightarrow> x | None \<Rightarrow> ip);
               l = length ip'
           in if l \<noteq> length nn then False
              else list_all (\<lambda>i. (nn ! i) AND (m ! i) = (ip' ! i) AND (m ! i)) [0..<l]))"

subsection \<open>encoding/binary\<close>

text \<open>
  \<open>binary.ReadUvarint\<close> on a \<open>bytes.Buffer\<close> holding the seed: little-endian base-128
  groups, at most ten bytes, and the tenth at most 1. \<open>None\<close> is any error (end of input
  or overflow). \<open>i\<close> is the loop counter, \<open>x\<close> the accumulator, \<open>s\<close> the shift.
\<close>

fun ReadUvarint_loop :: "nat \<Rightarrow> 64 word \<Rightarrow> nat \<Rightarrow> byte list \<Rightarrow> 64 word option" where
  "ReadUvarint_loop i x s [] = None"
| "ReadUvarint_loop i x s (b # r) =
     (if 10 \<le> i then None
      else if b < 0x80 then
        (if i = 9 \<and> 1 < b then None else Some (x OR push_bit s (ucast b)))
      else ReadUvarint_loop (i + 1) (x OR push_bit s (ucast (b AND 0x7f))) (s + 7) r)"

definition ReadUvarint :: "byte list \<Rightarrow> 64 word option" where
  "ReadUvarint buf = ReadUvarint_loop 0 0 0 buf"

text \<open>\<open>binary.ReadVarint\<close>: the zig-zag decoding of the unsigned value, an \<open>int64\<close>.\<close>

definition ReadVarint :: "byte list \<Rightarrow> 64 word option" where
  "ReadVarint buf =
     (case ReadUvarint buf of
        None \<Rightarrow> None
      | Some ux \<Rightarrow> Some (let x = drop_bit 1 ux in if ux AND 1 \<noteq> 0 then NOT x else x))"

subsection \<open>What the model takes as parameters\<close>

text \<open>
  \<open>wr.Choice\<close> of github.com/mroth/weightedrand: an item (here always a subnet list) and
  its unsigned weight.
\<close>

record Choice =
  Item :: "string list"
  Weight_wr :: "64 word"

text \<open>
  The environment collects what the source takes from outside the repository and what
  this development does not fix:
  \<^item> \<open>ParseCIDR\<close>: \<open>net.ParseCIDR\<close>, the parsed network or \<open>None\<close> for an error;
  \<^item> \<open>rand_Seed\<close>, \<open>rand_Intn\<close>, \<open>rand_Read\<close>: the process-wide generator of math/rand,
    whose state has type \<open>'g\<close>. \<open>rand.Seed\<close> overwrites the whole state, so the state
    after it is a function of the seed alone; \<open>rand.Intn\<close> and \<open>rand.Read\<close> read the
    state and advance it;
  \<^item> \<open>sort_Slice\<close>: the order in which \<open>sort.Slice\<close> leaves the choices (it is not a
    stable sort);
  \<^item> \<open>uint_overflow\<close>: what \<open>uint(w)\<close> yields for a float outside \<open>[0, 2^64)\<close>, which
    Go leaves to the implementation.
\<close>

record 'g env =
  ParseCIDR :: "string \<Rightarrow> IPNet option"
  rand_Seed :: "64 word \<Rightarrow> 'g"
  rand_Intn :: "int \<Rightarrow> 'g \<Rightarrow> int \<times> 'g"
  rand_Read :: "nat \<Rightarrow> 'g \<Rightarrow> byte list \<times> 'g"
  sort_Slice :: "Choice list \<Rightarrow> Choice list"
  uint_overflow :: "rat \<Rightarrow> 64 word"

text \<open>The conversion \<open>uint(cjSubnet.Weight)\<close>: truncation towards zero where it is defined.\<close>

definition uint_of_float32 :: "'g env \<Rightarrow> rat \<Rightarrow> 64 word" where
  "uint_of_float32 env w =
     (if 0 \<le> w \<and> w < 2 ^ 64 then word_of_int \<lfloor>w\<rfloor> else uint_overflow env w)"

subsection \<open>github.com/mroth/weightedrand\<close>

text \<open>
  The call \<open>c, _ := wr.NewChooser(choices...)\<close> followed by \<open>c.Pick().([]string)\<close> fixes
  the release line of the library: \<open>NewChooser\<close> returns a chooser and an error, \<open>Pick\<close> an
  \<open>interface{}\<close>, and a weight is a \<open>uint\<close>. Its source is not part of the repository; the
  three definitions below follow it. \<open>int\<close> and \<open>uint\<close> are 64 bits wide, \<open>int(c.Weight)\<close>
  reinterprets the bits, and signed arithmetic wraps around.

  \<open>NewChooser\<close> sorts the choices by weight, accumulates the running totals, refuses a
  weight that would overflow and refuses a total below 1. In both refusals it returns a nil
  chooser with the error (\<open>None\<close> here).
\<close>

record Chooser =
  data :: "Choice list"
  totals :: "64 word list"
  max_total :: "64 word"

definition maxInt :: "64 word" where
  "maxInt = 0x7FFFFFFFFFFFFFFF"

fun totals_loop :: "Choice list \<Rightarrow> 64 word \<Rightarrow> 64 word list \<Rightarrow> (64 word list \<times> 64 word) option" where
  "totals_loop [] runningTotal acc = Some (acc, runningTotal)"
| "totals_loop (c # cs) runningTotal acc =
     (let weight = Weight_wr c
      in if maxInt - runningTotal \<le>s weight then None
         else totals_loop cs (runningTotal + weight) (acc @ [runningTotal + weight]))"

definition NewChooser :: "'g env \<Rightarrow> Choice list \<Rightarrow> Chooser option" where
  "NewChooser env choices =
     (let cs = sort_Slice env choices
      in case totals_loop cs 0 [] of
           None \<Rightarrow> None
         | Some (ts, runningTotal) \<Rightarrow>
             if runningTotal <s 1 then None
             else Some \<lparr>data = cs, totals = ts, max_total = runningTotal\<rparr>)"

text \<open>\<open>searchInts\<close>: the library's binary search, \<open>i\<close> and \<open>j\<close> the bounds of its loop.\<close>

function searchInts_loop :: "64 word list \<Rightarrow> 64 word \<Rightarrow> nat \<Rightarrow> nat \<Rightarrow> nat" where
  "searchInts_loop a x i j =
     (if i < j then
        (let h = (i + j) div 2
         in if a ! h <s x then searchInts_loop a x (h + 1) j
            else searchInts_loop a x i h)
      else i)"
  by pat_completeness auto
termination
  by (relation "measure (\<lambda>(a, x, i, j). j - i)") auto

declare searchInts_loop.simps [simp del]

definition searchInts :: "64 word list \<Rightarrow> 64 word \<Rightarrow> nat" where
  "searchInts a x = searchInts_loop a x 0 (length a)"

text \<open>
  \<open>Pick\<close>: \<open>r := rand.Intn(c.max) + 1\<close>, then the item at the index the search returns.
  \<open>rand.Intn\<close> panics on an argument that is not positive, and indexing past the end of
  \<open>c.data\<close> panics.
\<close>

definition Pick :: "'g env \<Rightarrow> Chooser \<Rightarrow> 'g \<Rightarrow> (failure + string list) \<times> 'g" where
  "Pick env c g =
     (if sint (max_total c) \<le> 0 then (Inl IntnInvalidArgument, g)
      else (case rand_Intn env (sint (max_total c)) g of
              (v, g') \<Rightarrow>
                (let r = word_of_int v + 1;
                     i = searchInts (totals c) r
                 in if i < length (data c) then (Inr (Item (data c ! i)), g')
                    else (Inl IndexOutOfRange, g'))))"

subsection \<open>Other users of the process-wide generator\<close>

text \<open>
  \<open>rand.Seed\<close> and the draw that follows it (\<open>rand.Intn\<close> inside \<open>Pick\<close>, \<open>rand.Read\<close>)
  are separate calls on the generator of the package math/rand, which every goroutine of
  the process shares. Between the two calls another goroutine, another selection
  included, may seed the generator or draw from it. An \<open>interference\<close> says what the rest
  of the process does to the generator during one invocation: \<open>before_Intn\<close> between the
  \<open>rand.Seed\<close> of \<open>getSubnets\<close> and the draw of \<open>Pick\<close>, \<open>before_Read\<close> between the
  \<open>rand.Seed\<close> and the \<open>rand.Read\<close> of \<open>SelectAddrFromSubnet\<close>. What happens to the
  generator anywhere else in the invocation is overwritten by the next \<open>rand.Seed\<close>.
  \<open>alone\<close> is the invocation that has the generator to itself.
\<close>

record 'g interference =
  before_Intn :: "'g \<Rightarrow> 'g"
  before_Read :: "'g \<Rightarrow> 'g"

definition alone :: "'g interference" where
  "alone = \<lparr>before_Intn = (\<lambda>g. g), before_Read = (\<lambda>g. g)\<rparr>"

text \<open>
  The interference of a selection that another selection overlaps: the other selection,
  for a secret whose varint is \<open>s\<close>, calls \<open>rand.Seed(s)\<close> after this one has seeded the
  generator and before this one draws.
\<close>

definition overlapped_by :: "'g env \<Rightarrow> 64 word \<Rightarrow> 'g interference" where
  "overlapped_by env s =
     \<lparr>before_Intn = (\<lambda>g. rand_Seed env s), before_Read = (\<lambda>g. rand_Seed env s)\<rparr>"

section \<open>phantoms.go\<close>

text \<open>
  Every function that seeds or draws from the process-wide generator takes its state \<open>g\<close>
  and the interference \<open>io\<close> of the invocation, and returns the state it leaves.

  \<open>getSubnets\<close> has no error result. With a seed that is no varint it returns nil, a slice
  of length 0 (modelled as \<open>[]\<close>: its only reader, \<open>parseSubnets\<close>, looks at the length).
  The error of \<open>NewChooser\<close> is discarded, so a refused chooser leaves \<open>c\<close> nil and
  \<open>c.Pick()\<close> dereferences it: the only \<open>Inl\<close> results are panics.
\<close>

definition getSubnets ::
  "'g env \<Rightarrow> 'g interference \<Rightarrow> 'g \<Rightarrow> SubnetConfig \<Rightarrow> byte list \<Rightarrow> bool \<Rightarrow> (failure + string list) \<times> 'g" where
  "getSubnets env io g sc seed weighted =
     (if weighted then
        (case ReadVarint seed of
           None \<Rightarrow> (Inr [], g)
         | Some seedInt \<Rightarrow>
             (let g1 = rand_Seed env seedInt;
                  choices = map (\<lambda>cjSubnet. \<lparr>Item = Subnets cjSubnet,
                                     Weight_wr = uint_of_float32 env (Weight cjSubnet)\<rparr>)
                              (WeightedSubnets sc)
              in case NewChooser env choices of
                   None \<Rightarrow> (Inl NilDereference, g1)
                 | Some c \<Rightarrow> Pick env c (before_Intn io g1)))
      else (Inr (concat (map Subnets (WeightedSubnets sc))), g))"

definition V4Only :: "IPNet list \<Rightarrow> failure + IPNet list" where
  "V4Only obj = Inr (filter (\<lambda>n. To4 (IP n) \<noteq> None) obj)"

text \<open>
  \<open>parseSubnets\<close>. \<open>net.ParseCIDR\<close> returns a network exactly when it returns no error, so
  the source's second check (\<open>parsedNet == nil\<close>) is the same \<open>None\<close>.
\<close>

fun parseSubnets_loop :: "'g env \<Rightarrow> string list \<Rightarrow> IPNet list \<Rightarrow> failure + IPNet list" where
  "parseSubnets_loop env [] subnets = Inr subnets"
| "parseSubnets_loop env (strNet # rest) subnets =
     (case ParseCIDR env strNet of
        None \<Rightarrow> Inl CIDRParseError
      | Some parsedNet \<Rightarrow> parseSubnets_loop env rest (subnets @ [parsedNet]))"

definition parseSubnets :: "'g env \<Rightarrow> string list \<Rightarrow> failure + IPNet list" where
  "parseSubnets env phantomSubnets =
     (if length phantomSubnets = 0 then Inl NoSubnetsProvided
      else parseSubnets_loop env phantomSubnets [])"

definition SelectAddrFromSubnet ::
  "'g env \<Rightarrow> 'g interference \<Rightarrow> 'g \<Rightarrow> byte list \<Rightarrow> IPNet \<Rightarrow> (failure + IP) \<times> 'g" where
  "SelectAddrFromSubnet env io g seed net1 =
     (case Mask_Size (Mask net1) of
        (bits, addrLen) \<Rightarrow>
          (let ipBigInt =
                 (case To4 (IP net1) of
                    Some v4net \<Rightarrow> SetBytes v4net
                  | None \<Rightarrow> (case To16 (IP net1) of Some v6net \<Rightarrow> SetBytes v6net | None \<Rightarrow> 0))
           in case ReadVarint seed of
                None \<Rightarrow> (Inl VarintError, g)
              | Some seedInt \<Rightarrow>
                  (case rand_Read env (nat (addrLen div 8))
                          (before_Read io (rand_Seed env seedInt)) of
                     (randBytes, g') \<Rightarrow>
                       (let randBigInt = SetBytes randBytes;
                            maskBigInt = drop_bit (nat bits)
                                           (SetBytes (replicate (nat (addrLen div 8)) 0xff))
                        in (Inr (Bytes (ipBigInt + (randBigInt AND maskBigInt))), g')))))"

text \<open>
  \<open>selectIPAddr\<close>, first loop: every network gets the range from the running total before
  it (\<open>min\<close>) to the running total after it (\<open>max\<close>), and the running total grows by the
  network's size less one.
\<close>

record idNet =
  min_id :: int
  max_id :: int
  net_id :: IPNet

fun idNets_loop :: "IPNet list \<Rightarrow> int \<Rightarrow> idNet list \<Rightarrow> failure + (int \<times> idNet list)" where
  "idNets_loop [] addresses_total idNets = Inr (addresses_total, idNets)"
| "idNets_loop (n # rest) addresses_total idNets =
     (let netMaskOnes = fst (Mask_Size (Mask n))
      in if To4 (IP n) \<noteq> None then
           (let total' = addresses_total + Exp 2 (32 - netMaskOnes) - 1
            in idNets_loop rest total'
                 (idNets @ [\<lparr>min_id = addresses_total, max_id = total', net_id = n\<rparr>]))
         else if To16 (IP n) \<noteq> None then
           (let total' = addresses_total + Exp 2 (128 - netMaskOnes) - 1
            in idNets_loop rest total'
                 (idNets @ [\<lparr>min_id = addresses_total, max_id = total', net_id = n\<rparr>]))
         else Inl FailedToParse)"

text \<open>
  Second loop: every range with \<open>min < id \<le> max\<close> overwrites \<open>result\<close> (there is no
  \<open>break\<close>). \<open>result\<close> is nil (\<open>None\<close>) until a range matches; \<open>big.Int.Bytes\<close> never
  returns nil.
\<close>

fun select_loop ::
  "'g env \<Rightarrow> 'g interference \<Rightarrow> byte list \<Rightarrow> int \<Rightarrow> idNet list \<Rightarrow> IP option \<Rightarrow> 'g \<Rightarrow> (failure + IP option) \<times> 'g" where
  "select_loop env io seed ident [] result g = (Inr result, g)"
| "select_loop env io seed ident (x # rest) result g =
     (if ident \<le> max_id x \<and> min_id x < ident then
        (case SelectAddrFromSubnet env io g seed (net_id x) of
           (Inl err, g') \<Rightarrow> (Inl (FailedToChooseIP err), g')
         | (Inr ip, g') \<Rightarrow> select_loop env io seed ident rest (Some ip) g')
      else select_loop env io seed ident rest result g)"

definition selectIPAddr ::
  "'g env \<Rightarrow> 'g interference \<Rightarrow> 'g \<Rightarrow> byte list \<Rightarrow> IPNet list \<Rightarrow> (failure + IP) \<times> 'g" where
  "selectIPAddr env io g seed subnets =
     (case idNets_loop subnets 0 [] of
        Inl err \<Rightarrow> (Inl err, g)
      | Inr (addresses_total, idNets) \<Rightarrow>
          if addresses_total \<le> 0 then (Inl NoValidAddresses, g)
          else
            (let id0 = SetBytes seed;
                 ident = (if addresses_total < id0 then id0 mod addresses_total else id0)
             in case select_loop env io seed ident idNets None g of
                  (Inl err, g') \<Rightarrow> (Inl err, g')
                | (Inr None, g') \<Rightarrow> (Inl NoRangeFound, g')
                | (Inr (Some ip), g') \<Rightarrow> (Inr ip, g')))"

text \<open>
  \<open>SelectPhantom\<close>. A \<open>SubnetFilter\<close> is a function value; \<open>None\<close> is the nil filter.
\<close>

type_synonym SubnetFilter = "IPNet list \<Rightarrow> failure + IPNet list"

definition SelectPhantom ::
  "'g env \<Rightarrow> 'g interference \<Rightarrow> 'g \<Rightarrow> byte list \<Rightarrow> SubnetConfig \<Rightarrow> SubnetFilter option \<Rightarrow> bool
     \<Rightarrow> (failure + IP) \<times> 'g" where
  "SelectPhantom env io g seed subnets transform weighted =
     (case getSubnets env io g subnets seed weighted of
        (Inl p, g1) \<Rightarrow> (Inl p, g1)
      | (Inr strs, g1) \<Rightarrow>
          (case parseSubnets env strs of
             Inl err \<Rightarrow> (Inl (FailedToParseSubnets err), g1)
           | Inr s \<Rightarrow>
               (case transform of
                  None \<Rightarrow> selectIPAddr env io g1 seed s
                | Some f \<Rightarrow>
                    (case f s of
                       Inl err \<Rightarrow> (Inl err, g1)
                     | Inr s' \<Rightarrow> selectIPAddr env io g1 seed s'))))"

definition SelectPhantomUnweighted ::
  "'g env \<Rightarrow> 'g interference \<Rightarrow> 'g \<Rightarrow> byte list \<Rightarrow> SubnetConfig \<Rightarrow> SubnetFilter option \<Rightarrow> (failure + IP) \<times> 'g" where
  "SelectPhantomUnweighted env io g seed subnets transform =
     SelectPhantom env io g seed subnets transform False"

definition SelectPhantomWeighted ::
  "'g env \<Rightarrow> 'g interference \<Rightarrow> 'g \<Rightarrow> byte list \<Rightarrow> SubnetConfig \<Rightarrow> SubnetFilter option \<Rightarrow> (failure + IP) \<times> 'g" where
  "SelectPhantomWeighted env io g seed subnets transform =
     SelectPhantom env io g seed subnets transform True"

section \<open>assets.go: the decoy picker\<close>

text \<open>
  Modelled from the spec: the record type \<open>pb.TLSDecoySpec\<close> is declared outside the
  sources. Its fields are those of the spec's DecoyRecord (optional IPv4 address, optional
  IPv6 address, hostname, timeout, send window) and the public key; the source fixes their
  representation: \<open>chosenDecoy.Timeout = &timeout\<close> and \<open>chosenDecoy.Tcpwin = &tcpWin\<close>
  make \<open>Timeout\<close> and \<open>Tcpwin\<close> pointers to \<open>uint32\<close>, \<open>GetIpv4Addr() != 0\<close> a \<open>uint32\<close>
  behind a pointer, \<open>GetIpv6Addr() != nil\<close> a byte slice. A getter returns the zero value of
  a field whose pointer is nil.

  Pointers are addresses into an explicit store: \<open>words\<close> holds the \<open>uint32\<close> objects and
  \<open>next_word\<close> is the first address not yet allocated; \<open>specs\<close> holds the
  \<open>TLSDecoySpec\<close> objects the decoy list points to. \<open>None\<close> is the nil pointer.
\<close>

type_synonym addr = nat

record TLSDecoySpec =
  Hostname :: "string option"
  Ipv4Addr :: "addr option"
  Ipv6Addr :: "byte list option"
  Pubkey :: "addr option"
  Timeout :: "addr option"
  Tcpwin :: "addr option"

record store =
  words :: "addr \<Rightarrow> 32 word"
  next_word :: addr
  specs :: "addr \<rightharpoonup> TLSDecoySpec"

text \<open>\<open>x := uint32(v); ... = &x\<close>: a new \<open>uint32\<close> object holding \<open>v\<close>, and its address.\<close>

definition new_word :: "32 word \<Rightarrow> store \<Rightarrow> addr \<times> store" where
  "new_word v st =
     (next_word st, st\<lparr>words := (words st)(next_word st := v), next_word := Suc (next_word st)\<rparr>)"

text \<open>
  The constants \<open>timeoutMin\<close>, \<open>timeoutMax\<close>, \<open>sendLimitMin\<close> and \<open>sendLimitMax\<close> are
  declared in another file of the package; they are parameters here. So is \<open>getRandInt\<close>,
  the random draw of the index.
\<close>

record limits =
  timeoutMin :: "32 word"
  timeoutMax :: "32 word"
  sendLimitMin :: "32 word"
  sendLimitMax :: "32 word"

record DecoyList =
  TlsDecoys :: "addr option list"

record ClientConf =
  DecoyList :: "DecoyList option"

record assets =
  path :: string
  config :: ClientConf

text \<open>The generated getters; a nil receiver yields the zero value.\<close>

definition GetDecoyList :: "ClientConf \<Rightarrow> DecoyList option" where
  "GetDecoyList m = DecoyList m"

definition GetTlsDecoys :: "DecoyList option \<Rightarrow> addr option list" where
  "GetTlsDecoys m = (case m of None \<Rightarrow> [] | Some l \<Rightarrow> TlsDecoys l)"

definition GetTimeout :: "store \<Rightarrow> TLSDecoySpec \<Rightarrow> 32 word" where
  "GetTimeout st m = (case Timeout m of None \<Rightarrow> 0 | Some p \<Rightarrow> words st p)"

definition GetTcpwin :: "store \<Rightarrow> TLSDecoySpec \<Rightarrow> 32 word" where
  "GetTcpwin st m = (case Tcpwin m of None \<Rightarrow> 0 | Some p \<Rightarrow> words st p)"

definition zero_TLSDecoySpec :: TLSDecoySpec where
  "zero_TLSDecoySpec =
     \<lparr>Hostname = None, Ipv4Addr = None, Ipv6Addr = None, Pubkey = None,
      Timeout = None, Tcpwin = None\<rparr>"

text \<open>
  The two \<open>if\<close> statements of \<open>GetDecoy\<close>, each a step on the local copy \<open>chosenDecoy\<close>
  and the store: below the minimum, a new \<open>uint32\<close> holding the maximum is allocated and
  the field of the copy is pointed at it.
\<close>

definition clamp_Timeout :: "limits \<Rightarrow> TLSDecoySpec \<times> store \<Rightarrow> TLSDecoySpec \<times> store" where
  "clamp_Timeout lims cs =
     (case cs of
        (chosenDecoy, st) \<Rightarrow>
          if GetTimeout st chosenDecoy < timeoutMin lims then
            (case new_word (timeoutMax lims) st of
               (timeout, st') \<Rightarrow> (chosenDecoy\<lparr>Timeout := Some timeout\<rparr>, st'))
          else (chosenDecoy, st))"

definition clamp_Tcpwin :: "limits \<Rightarrow> TLSDecoySpec \<times> store \<Rightarrow> TLSDecoySpec \<times> store" where
  "clamp_Tcpwin lims cs =
     (case cs of
        (chosenDecoy, st) \<Rightarrow>
          if GetTcpwin st chosenDecoy < sendLimitMin lims then
            (case new_word (sendLimitMax lims) st of
               (tcpWin, st') \<Rightarrow> (chosenDecoy\<lparr>Tcpwin := Some tcpWin\<rparr>, st'))
          else (chosenDecoy, st))"

text \<open>
  \<open>GetDecoy\<close>. \<open>chosenDecoy = *decoys[decoyIndex]\<close> copies the struct the pointer refers
  to; an index outside the slice and a nil pointer panic (a pointer to no object of the
  store, which Go cannot produce, is treated like nil). The read lock is not modelled.
\<close>

definition GetDecoy ::
  "limits \<Rightarrow> (int \<Rightarrow> int \<Rightarrow> int) \<Rightarrow> assets \<Rightarrow> store \<Rightarrow> (failure + TLSDecoySpec) \<times> store" where
  "GetDecoy lims getRandInt a st =
     (let decoys = GetTlsDecoys (GetDecoyList (config a));
          chosenDecoy = zero_TLSDecoySpec
      in if length decoys = 0 then (Inr chosenDecoy, st)
         else
           (let decoyIndex = getRandInt 0 (int (length decoys) - 1)
            in if decoyIndex < 0 \<or> int (length decoys) \<le> decoyIndex
               then (Inl IndexOutOfRange, st)
               else
                 (case decoys ! nat decoyIndex of
                    None \<Rightarrow> (Inl NilDereference, st)
                  | Some p \<Rightarrow>
                      (case specs st p of
                         None \<Rightarrow> (Inl NilDereference, st)
                       | Some d \<Rightarrow>
                           (case clamp_Tcpwin lims (clamp_Timeout lims (d, st)) of
                              (chosenDecoy', st') \<Rightarrow> (Inr chosenDecoy', st'))))))"

section \<open>A concrete environment for worked examples\<close>

text \<open>
  The worked examples below need one inhabitant of the environment. Its generator is a
  counter: \<open>rand.Seed\<close> stores the seed, every draw reads the counter and advances it.
  \<open>example_nets\<close> lists what \<open>net.ParseCIDR\<close> returns for the strings the examples use:
  a 4-byte address and mask for IPv4, 16 bytes each for IPv6, host bits cleared.
\<close>

definition net_10_30 :: IPNet where
  "net_10_30 = \<lparr>IP = [10, 0, 0, 0], Mask = [255, 255, 255, 252]\<rparr>"

definition net_10_32 :: IPNet where
  "net_10_32 = \<lparr>IP = [10, 0, 0, 1], Mask = [255, 255, 255, 255]\<rparr>"

definition net_192_24 :: IPNet where
  "net_192_24 = \<lparr>IP = [192, 168, 0, 0], Mask = [255, 255, 255, 0]\<rparr>"

definition net_0_8 :: IPNet where
  "net_0_8 = \<lparr>IP = [0, 0, 0, 0], Mask = [255, 0, 0, 0]\<rparr>"

definition net_nat64_96 :: IPNet where
  "net_nat64_96 =
     \<lparr>IP = [0, 0x64, 0xff, 0x9b, 0, 0, 0, 0, 0, 0, 0, 0, 0, 0, 0, 0],
      Mask = [255, 255, 255, 255, 255, 255, 255, 255, 255, 255, 255, 255, 0, 0, 0, 0]\<rparr>"

definition net_v6_128 :: IPNet where
  "net_v6_128 =
     \<lparr>IP = [0x20, 0x01, 0x0d, 0xb8, 0, 0, 0, 0, 0, 0, 0, 0, 0, 0, 0, 1],
      Mask = [255, 255, 255, 255, 255, 255, 255, 255,
              255, 255, 255, 255, 255, 255, 255, 255]\<rparr>"

definition example_nets :: "(string \<times> IPNet) list" where
  "example_nets =
     [(''10.0.0.0/30'', net_10_30),
      (''10.0.0.1/32'', net_10_32),
      (''192.168.0.0/24'', net_192_24),
      (''0.0.0.0/8'', net_0_8),
      (''64:ff9b::/96'', net_nat64_96),
      (''2001:db8::1/128'', net_v6_128)]"

definition example_env :: "(64 word) env" where
  "example_env =
     \<lparr>ParseCIDR = map_of example_nets,
      rand_Seed = (\<lambda>seed. seed),
      rand_Intn = (\<lambda>n g. (uint g mod n, g + 1)),
      rand_Read = (\<lambda>n g. (map (\<lambda>i. ucast (g + word_of_nat i)) [0..<n], g + word_of_nat n)),
      sort_Slice = sort_key Weight_wr,
      uint_overflow = (\<lambda>w. 0)\<rparr>"

definition config_10_30 :: SubnetConfig where
  "config_10_30 = \<lparr>WeightedSubnets = [\<lparr>Weight = 1, Subnets = [''10.0.0.0/30'']\<rparr>]\<rparr>"

definition config_10_32 :: SubnetConfig where
  "config_10_32 = \<lparr>WeightedSubnets = [\<lparr>Weight = 1, Subnets = [''10.0.0.1/32'']\<rparr>]\<rparr>"

definition config_0_8 :: SubnetConfig where
  "config_0_8 = \<lparr>WeightedSubnets = [\<lparr>Weight = 1, Subnets = [''0.0.0.0/8'']\<rparr>]\<rparr>"

definition config_weighted :: "rat \<Rightarrow> SubnetConfig" where
  "config_weighted w =
     \<lparr>WeightedSubnets = [\<lparr>Weight = w, Subnets = [''192.168.0.0/24'']\<rparr>,
                         \<lparr>Weight = 3, Subnets = [''10.0.0.0/30'']\<rparr>]\<rparr>"

definition config_zero_weight :: SubnetConfig where
  "config_zero_weight = \<lparr>WeightedSubnets = [\<lparr>Weight = 0, Subnets = [''10.0.0.0/30'']\<rparr>]\<rparr>"

text \<open>A store with one decoy whose timeout (5000) is below the minimum and whose send
  window is unset, the configuration that lists it, and a configuration without decoys.\<close>

definition example_limits :: limits where
  "example_limits =
     \<lparr>timeoutMin = 20000, timeoutMax = 30000, sendLimitMin = 14400, sendLimitMax = 15614\<rparr>"

definition example_decoy :: TLSDecoySpec where
  "example_decoy =
     \<lparr>Hostname = Some ''tapdance1.freeaeskey.xyz'', Ipv4Addr = Some 0, Ipv6Addr = None,
      Pubkey = None, Timeout = Some 1, Tcpwin = None\<rparr>"

definition example_store :: store where
  "example_store =
     \<lparr>words = (\<lambda>p. if p = 0 then 0xC07ABE68 else if p = 1 then 5000 else 0),
      next_word = 2,
      specs = [0 \<mapsto> example_decoy]\<rparr>"

definition example_assets :: assets where
  "example_assets =
     \<lparr>path = ''./assets/'', config = \<lparr>DecoyList = Some \<lparr>TlsDecoys = [Some 0]\<rparr>\<rparr>\<rparr>"

definition empty_assets :: assets where
  "empty_assets = \<lparr>path = ''./assets/'', config = \<lparr>DecoyList = None\<rparr>\<rparr>"

section \<open>Notions the properties are stated with\<close>

text \<open>
  \<open>selects\<close>: the draw \<open>getRandInt(0, len(decoys)-1)\<close> is an index of the decoy list, the
  pointer there is \<open>p\<close> and it refers to the stored record \<open>d\<close>. \<open>allocated\<close>: the
  \<open>uint32\<close> pointers of a record refer to objects of the store.
\<close>

definition selects :: "(int \<Rightarrow> int \<Rightarrow> int) \<Rightarrow> assets \<Rightarrow> store \<Rightarrow> addr \<Rightarrow> TLSDecoySpec \<Rightarrow> bool" where
  "selects getRandInt a st p d =
     (let decoys = GetTlsDecoys (GetDecoyList (config a));
          i = getRandInt 0 (int (length decoys) - 1)
      in decoys \<noteq> [] \<and> 0 \<le> i \<and> i < int (length decoys)
         \<and> decoys ! nat i = Some p \<and> specs st p = Some d)"

definition allocated :: "store \<Rightarrow> TLSDecoySpec \<Rightarrow> bool" where
  "allocated st d =
     ((case Timeout d of None \<Rightarrow> True | Some q \<Rightarrow> q < next_word st)
      \<and> (case Tcpwin d of None \<Rightarrow> True | Some q \<Rightarrow> q < next_word st))"

text \<open>
  The base address of a network as an integer (the family is decided the way
  \<open>SelectAddrFromSubnet\<close> decides it) and its number of host bits. They speak of the
  integer a byte string denotes, not of its length: whether a returned \<open>net.IP\<close> is an
  address of a network is \<open>Contains\<close>.
\<close>

definition net_base :: "IPNet \<Rightarrow> int" where
  "net_base n =
     (case To4 (IP n) of
        Some v4net \<Rightarrow> SetBytes v4net
      | None \<Rightarrow> (case To16 (IP n) of Some v6net \<Rightarrow> SetBytes v6net | None \<Rightarrow> 0))"

definition host_bits :: "IPNet \<Rightarrow> nat" where
  "host_bits n = (case Mask_Size (Mask n) of (ones, bits) \<Rightarrow> nat (bits - ones))"

text \<open>
  What the weighted draw needs of the environment: \<open>rand.Intn(n)\<close> returns a value in
  \<open>[0, n)\<close> for a positive \<open>n\<close>, and \<open>sort.Slice\<close> returns a permutation of the choices
  in ascending order of their (unsigned) weights.
\<close>

definition rng_ok :: "'g env \<Rightarrow> bool" where
  "rng_ok env =
     (\<forall>n g. 0 < n \<longrightarrow> 0 \<le> fst (rand_Intn env n g) \<and> fst (rand_Intn env n g) < n)"

definition sort_ok :: "'g env \<Rightarrow> bool" where
  "sort_ok env =
     (\<forall>cs. mset (sort_Slice env cs) = mset cs \<and> sorted (map Weight_wr (sort_Slice env cs)))"

text \<open>The running totals \<open>NewChooser\<close> accumulates, starting from \<open>t\<close>.\<close>

fun running :: "64 word \<Rightarrow> Choice list \<Rightarrow> 64 word list" where
  "running t [] = []"
| "running t (c # cs) = (t + Weight_wr c) # running (t + Weight_wr c) cs"

text \<open>The sum of the unsigned weights of a list of choices, as an integer.\<close>

definition weight_sum :: "Choice list \<Rightarrow> int" where
  "weight_sum cs = sum_list (map (\<lambda>c. uint (Weight_wr c)) cs)"

text \<open>
  The candidate networks of a call of \<open>SelectPhantom\<close>: what is left after \<open>getSubnets\<close>,
  \<open>parseSubnets\<close> and the filter, and \<open>None\<close> when one of them fails.
\<close>

definition candidate_nets ::
  "'g env \<Rightarrow> 'g interference \<Rightarrow> 'g \<Rightarrow> byte list \<Rightarrow> SubnetConfig \<Rightarrow> SubnetFilter option \<Rightarrow> bool
     \<Rightarrow> IPNet list option" where
  "candidate_nets env io g seed subnets transform weighted =
     (case fst (getSubnets env io g subnets seed weighted) of
        Inl p \<Rightarrow> None
      | Inr strs \<Rightarrow>
          (case parseSubnets env strs of
             Inl err \<Rightarrow> None
           | Inr s \<Rightarrow>
               (case transform of
                  None \<Rightarrow> Some s
                | Some f \<Rightarrow> (case f s of Inl err \<Rightarrow> None | Inr s' \<Rightarrow> Some s'))))"

section \<open>Big integers and masks\<close>

lemma alone_simps [simp]: "before_Intn alone g = g" "before_Read alone g = g"
  by (simp_all add: alone_def)

lemma overlapped_by_simps [simp]:
  "before_Intn (overlapped_by env s) g = rand_Seed env s"
  "before_Read (overlapped_by env s) g = rand_Seed env s"
  by (simp_all add: overlapped_by_def)

lemma SetBytes_snoc: "SetBytes (bs @ [b]) = SetBytes bs * 256 + uint b"
  by (simp add: SetBytes_def)

lemma SetBytes_nonneg: "0 \<le> SetBytes bs"
  by (induction bs rule: rev_induct) (simp_all add: SetBytes_snoc SetBytes_def)

lemma SetBytes_Bytes_nat: "SetBytes (Bytes_nat n) = int n"
proof (induction n rule: Bytes_nat.induct)
  case (1 n)
  show ?case
  proof (cases "n = 0")
    case True
    then show ?thesis by (simp add: SetBytes_def Bytes_nat.simps)
  next
    case False
    have "uint (word_of_nat (n mod 256) :: byte) = int (n mod 256)"
      by (simp add: unsigned_of_nat take_bit_eq_mod)
    with False 1 show ?thesis
      by (subst Bytes_nat.simps) (simp add: SetBytes_snoc zdiv_int zmod_int)
  qed
qed

lemma SetBytes_Bytes: "0 \<le> v \<Longrightarrow> SetBytes (Bytes v) = v"
  by (simp add: Bytes_def SetBytes_Bytes_nat)

lemma SetBytes_replicate_ff: "SetBytes (replicate k 0xff) = mask (8 * k)"
proof (induction k)
  case 0
  show ?case by (simp add: SetBytes_def)
next
  case (Suc k)
  have "SetBytes (replicate (Suc k) 0xff) = SetBytes (replicate k 0xff @ [0xff])"
    by (simp add: replicate_append_same)
  also have "\<dots> = mask (8 * k) * 256 + 255"
    by (simp add: SetBytes_snoc Suc)
  also have "\<dots> = (mask (8 * Suc k) :: int)"
  proof -
    have "(2::int) ^ (8 * Suc k) = 2 ^ (8 * k) * 256"
      by (simp add: power_add)
    then show ?thesis
      by (simp add: mask_eq_exp_minus_1)
  qed
  finally show ?case .
qed

lemma Mask_Size_bits: "Mask_Size m = (ones, bits) \<Longrightarrow> 8 * nat (bits div 8) = nat bits"
  by (auto simp: Mask_Size_def Let_def split: if_splits)

lemma maskBigInt_eq:
  assumes "Mask_Size m = (ones, bits)"
  shows "drop_bit (nat ones) (SetBytes (replicate (nat (bits div 8)) 0xff))
         = (mask (nat bits - nat ones) :: int)"
proof -
  have "SetBytes (replicate (nat (bits div 8)) 0xff) = mask (8 * nat (bits div 8))"
    by (rule SetBytes_replicate_ff)
  also have "\<dots> = mask (nat bits)"
    by (simp only: Mask_Size_bits [OF assms])
  finally show ?thesis
    by (simp only: drop_bit_mask_eq)
qed

lemma and_mask_bounds: "0 \<le> (r::int) AND mask k \<and> r AND mask k < 2 ^ k"
  by (simp add: and_mask_mod_2p flip: take_bit_eq_mask)

lemma Bytes_nat_length: "n < 256 ^ k \<Longrightarrow> length (Bytes_nat n) \<le> k"
proof (induction k arbitrary: n)
  case 0
  then show ?case by (simp add: Bytes_nat.simps)
next
  case (Suc k)
  show ?case
  proof (cases "n = 0")
    case True
    then show ?thesis by (simp add: Bytes_nat.simps)
  next
    case False
    from Suc.prems have "n div 256 < 256 ^ k"
      by (simp add: less_mult_imp_div_less mult.commute)
    from Suc.IH [OF this] False show ?thesis
      by (subst Bytes_nat.simps) simp
  qed
qed

section \<open>Address derivation and the two loops of selectIPAddr\<close>

lemma SelectAddr_unfold:
  assumes "Mask_Size (Mask n) = (ones, bits)"
  shows "SelectAddrFromSubnet env io g seed n =
     (case ReadVarint seed of
        None \<Rightarrow> (Inl VarintError, g)
      | Some seedInt \<Rightarrow>
          (case rand_Read env (nat (bits div 8)) (before_Read io (rand_Seed env seedInt)) of
             (randBytes, g') \<Rightarrow>
               (Inr (Bytes (net_base n + (SetBytes randBytes AND mask (nat bits - nat ones)))), g')))"
  by (simp add: SelectAddrFromSubnet_def assms net_base_def maskBigInt_eq [OF assms] Let_def
      split: option.splits prod.splits)

lemma SelectAddr_value_range:
  assumes "SelectAddrFromSubnet env io g seed n = (Inr ip, g')"
  shows "net_base n \<le> SetBytes ip \<and> SetBytes ip < net_base n + 2 ^ host_bits n"
proof -
  obtain ones bits where ms: "Mask_Size (Mask n) = (ones, bits)"
    by (cases "Mask_Size (Mask n)")
  from assms obtain rb where
    ip: "ip = Bytes (net_base n + (SetBytes rb AND mask (nat bits - nat ones)))"
    by (auto simp: SelectAddr_unfold [OF ms] split: option.splits prod.splits)
  let ?x = "SetBytes rb AND mask (nat bits - nat ones)"
  have x0: "0 \<le> ?x" and x1: "?x < 2 ^ (nat bits - nat ones)"
    using and_mask_bounds [of "SetBytes rb" "nat bits - nat ones"] by simp_all
  have "nat bits - nat ones \<le> host_bits n"
    by (simp add: host_bits_def ms)
  then have "(2::int) ^ (nat bits - nat ones) \<le> 2 ^ host_bits n"
    by (simp add: power_increasing)
  with x1 have x2: "?x < 2 ^ host_bits n"
    by linarith
  have b0: "0 \<le> net_base n"
    by (simp add: net_base_def SetBytes_nonneg split: option.splits)
  have "SetBytes ip = net_base n + ?x"
    unfolding ip using b0 x0 by (intro SetBytes_Bytes) linarith
  then show ?thesis
    using x0 x2 by simp
qed

lemma value_range_prefix:
  assumes clear: "net_base n mod 2 ^ host_bits n = 0" and inn: "net_base n \<le> v \<and> v < net_base n + 2 ^ host_bits n"
  shows "v div 2 ^ host_bits n = net_base n div 2 ^ host_bits n"
proof -
  let ?p = "(2 :: int) ^ host_bits n"
  define x where "x = v - net_base n"
  from inn have x: "0 \<le> x" "x < ?p"
    by (simp_all add: x_def)
  from clear have b: "net_base n = (net_base n div ?p) * ?p"
    by (simp add: mod_eq_0_iff_dvd)
  have "v = x + (net_base n div ?p) * ?p"
    using b by (simp add: x_def)
  then have "v div ?p = (x + (net_base n div ?p) * ?p) div ?p"
    by simp
  also have "\<dots> = x div ?p + net_base n div ?p"
    by (simp only: div_mult_self1 [of ?p x "net_base n div ?p"] power_not_zero
        zero_neq_numeral not_False_eq_True)
  also have "x div ?p = 0"
    using x by (simp add: div_pos_pos_trivial)
  finally show ?thesis
    by simp
qed

lemma SelectAddr_no_varint:
  "ReadVarint seed = None \<Longrightarrow> SelectAddrFromSubnet env io g seed n = (Inl VarintError, g)"
  by (cases "Mask_Size (Mask n)") (simp add: SelectAddr_unfold)

lemma SelectAddr_seeded:
  "ReadVarint seed = Some s \<Longrightarrow>
   SelectAddrFromSubnet env io g seed n = SelectAddrFromSubnet env io g2 seed n"
  by (cases "Mask_Size (Mask n)") (simp add: SelectAddr_unfold)

lemma SelectAddr_short:
  assumes ms: "Mask_Size (Mask n) = (ones, bits)"
    and b: "net_base n + 2 ^ (nat bits - nat ones) \<le> 256 ^ k"
  shows "case fst (SelectAddrFromSubnet env io g seed n) of
           Inl e \<Rightarrow> e = VarintError
         | Inr ip \<Rightarrow> length ip \<le> k"
proof (cases "ReadVarint seed")
  case None
  then show ?thesis by (simp add: SelectAddr_no_varint)
next
  case (Some s)
  obtain rb g' where
    rd: "rand_Read env (nat (bits div 8)) (before_Read io (rand_Seed env s)) = (rb, g')"
    by (cases "rand_Read env (nat (bits div 8)) (before_Read io (rand_Seed env s))")
  let ?v = "net_base n + (SetBytes rb AND mask (nat bits - nat ones))"
  have b0: "0 \<le> net_base n"
    by (simp add: net_base_def SetBytes_nonneg split: option.splits)
  have "0 \<le> ?v" "?v < 256 ^ k"
    using and_mask_bounds [of "SetBytes rb" "nat bits - nat ones"] b b0 by linarith+
  then have "nat \<bar>?v\<bar> < 256 ^ k"
    by (simp add: nat_less_iff)
  then have "length (Bytes ?v) \<le> k"
    unfolding Bytes_def by (rule Bytes_nat_length)
  then show ?thesis
    by (simp add: SelectAddr_unfold [OF ms] Some rd)
qed

lemma select_loop_indep:
  "fst (select_loop env io seed ident xs res g) = fst (select_loop env io seed ident xs res g2)"
proof (cases "ReadVarint seed")
  case None
  show ?thesis
    by (induction xs arbitrary: res g g2) (simp_all add: SelectAddr_no_varint [OF None])
next
  case (Some s)
  have same: "select_loop env io seed ident xs res g = select_loop env io seed ident xs res g2
              \<or> (\<exists>r. select_loop env io seed ident xs res g = (r, g)
                     \<and> select_loop env io seed ident xs res g2 = (r, g2))"
    for xs res g g2
  proof (induction xs arbitrary: res g g2)
    case Nil
    show ?case by simp
  next
    case (Cons x xs)
    show ?case
    proof (cases "ident \<le> max_id x \<and> min_id x < ident")
      case False
      then have "select_loop env io seed ident (x # xs) res ga = select_loop env io seed ident xs res ga" for ga
        by auto
      then show ?thesis using Cons.IH [of res g g2] by simp
    next
      case True
      have eq: "SelectAddrFromSubnet env io g seed (net_id x) = SelectAddrFromSubnet env io g2 seed (net_id x)"
        by (rule SelectAddr_seeded [OF Some])
      have "select_loop env io seed ident (x # xs) res g = select_loop env io seed ident (x # xs) res g2"
        using True by (simp add: eq)
      then show ?thesis by simp
    qed
  qed
  from same [of xs res g g2] show ?thesis by auto
qed

lemma select_loop_source:
  "select_loop env io seed ident xs res g = (Inr (Some ip), g') \<Longrightarrow>
   res = Some ip \<or> (\<exists>x\<in>set xs. \<exists>ga gb. SelectAddrFromSubnet env io ga seed (net_id x) = (Inr ip, gb))"
proof (induction xs arbitrary: res g)
  case Nil
  then show ?case by simp
next
  case (Cons x xs)
  show ?case
  proof (cases "ident \<le> max_id x \<and> min_id x < ident")
    case False
    with Cons.prems have "select_loop env io seed ident xs res g = (Inr (Some ip), g')"
      by simp
    from Cons.IH [OF this] show ?thesis by auto
  next
    case True
    with Cons.prems obtain ip1 g1 where
      sa: "SelectAddrFromSubnet env io g seed (net_id x) = (Inr ip1, g1)" and
      rest: "select_loop env io seed ident xs (Some ip1) g1 = (Inr (Some ip), g')"
      by (auto split: prod.splits sum.splits)
    from Cons.IH [OF rest] sa show ?thesis by auto
  qed
qed

lemma idNets_loop_nets:
  "idNets_loop ns t acc = Inr (t', ids) \<Longrightarrow> map net_id ids = map net_id acc @ ns"
proof (induction ns arbitrary: t acc)
  case Nil
  then show ?case by simp
next
  case (Cons n ns)
  from Cons.prems show ?case
    by (auto simp: Let_def dest!: Cons.IH split: if_splits)
qed

lemma selectIPAddr_indep:
  "fst (selectIPAddr env io g seed nets) = fst (selectIPAddr env io g2 seed nets)"
proof -
  have "fst (case select_loop env io seed ident ids None g of
               (Inl err, g') \<Rightarrow> (Inl err, g')
             | (Inr None, g') \<Rightarrow> (Inl NoRangeFound, g')
             | (Inr (Some ip), g') \<Rightarrow> (Inr ip, g'))
        = (case fst (select_loop env io seed ident ids None g) of
             Inl err \<Rightarrow> Inl err | Inr None \<Rightarrow> Inl NoRangeFound | Inr (Some ip) \<Rightarrow> Inr ip)"
    for ident ids g
    by (simp split: prod.splits sum.splits option.splits)
  then show ?thesis
    by (simp add: selectIPAddr_def Let_def select_loop_indep [of env io seed _ _ None g g2]
        split: sum.splits prod.splits)
qed

lemma selectIPAddr_source:
  assumes "selectIPAddr env io g seed nets = (Inr ip, g')"
  shows "\<exists>n\<in>set nets. \<exists>ga gb. SelectAddrFromSubnet env io ga seed n = (Inr ip, gb)"
proof -
  from assms obtain total ids ident g1 where
    ids: "idNets_loop nets 0 [] = Inr (total, ids)" and
    sl: "select_loop env io seed ident ids None g = (Inr (Some ip), g1)"
    by (auto simp: selectIPAddr_def Let_def split: sum.splits prod.splits if_splits option.splits)
  from select_loop_source [OF sl] obtain x ga gb where
    x: "x \<in> set ids" and sa: "SelectAddrFromSubnet env io ga seed (net_id x) = (Inr ip, gb)"
    by auto
  from idNets_loop_nets [OF ids] have "map net_id ids = nets"
    by simp
  with x have "net_id x \<in> set nets"
    by (metis image_eqI set_map)
  with sa show ?thesis
    by blast
qed

lemma selectIPAddr_value_range:
  assumes "selectIPAddr env io g seed nets = (Inr ip, g')"
  shows "\<exists>n\<in>set nets. net_base n \<le> SetBytes ip \<and> SetBytes ip < net_base n + 2 ^ host_bits n"
proof -
  from selectIPAddr_source [OF assms] obtain n ga gb where
    n: "n \<in> set nets" and sa: "SelectAddrFromSubnet env io ga seed n = (Inr ip, gb)"
    by blast
  from SelectAddr_value_range [OF sa] n show ?thesis
    by blast
qed

lemma getSubnets_unweighted:
  "getSubnets env io g sc seed False = (Inr (concat (map Subnets (WeightedSubnets sc))), g)"
  by (simp add: getSubnets_def)

lemma getSubnets_no_varint:
  "ReadVarint seed = None \<Longrightarrow> getSubnets env io g sc seed True = (Inr [], g)"
  by (simp add: getSubnets_def)

lemma getSubnets_seeded:
  "ReadVarint seed = Some s \<Longrightarrow>
   getSubnets env io g sc seed True = getSubnets env io g2 sc seed True"
  by (simp add: getSubnets_def)

lemma getSubnets_indep:
  "fst (getSubnets env io g sc seed w) = fst (getSubnets env io g2 sc seed w)"
  by (cases w; cases "ReadVarint seed")
     (simp_all add: getSubnets_unweighted getSubnets_no_varint getSubnets_seeded [of seed _ env io g sc g2])

lemma SelectPhantom_indep:
  "fst (SelectPhantom env io g seed sc f w) = fst (SelectPhantom env io g2 seed sc f w)"
proof -
  have passthrough: "\<exists>strs. getSubnets env io ga sc seed w = (Inr strs, ga)
      \<and> (\<forall>gb. getSubnets env io gb sc seed w = (Inr strs, gb))"
    if "\<not> w \<or> ReadVarint seed = None" for ga
    using that by (cases w) (auto simp: getSubnets_unweighted getSubnets_no_varint)
  show ?thesis
  proof (cases "w \<and> ReadVarint seed \<noteq> None")
    case True
    then obtain s where "ReadVarint seed = Some s" and w
      by auto
    then have "getSubnets env io g sc seed w = getSubnets env io g2 sc seed w"
      using getSubnets_seeded by simp
    then show ?thesis
      by (simp add: SelectPhantom_def)
  next
    case False
    then obtain strs where
      a: "getSubnets env io g sc seed w = (Inr strs, g)" and
      b: "getSubnets env io g2 sc seed w = (Inr strs, g2)"
      using passthrough [of g] by auto
    show ?thesis
      by (simp add: SelectPhantom_def a b selectIPAddr_indep [of env io g seed _ g2]
          split: sum.splits option.splits)
  qed
qed

section \<open>The weighted draw\<close>

lemma totals_loop_running:
  "totals_loop cs t acc = Some (ts, rt) \<Longrightarrow> ts = acc @ running t cs"
proof (induction cs arbitrary: t acc)
  case Nil
  then show ?case by simp
next
  case (Cons c cs)
  from Cons.prems have "totals_loop cs (t + Weight_wr c) (acc @ [t + Weight_wr c]) = Some (ts, rt)"
    by (simp add: Let_def split: if_splits)
  from Cons.IH [OF this] show ?case by simp
qed

lemma running_length: "length (running t cs) = length cs"
  by (induction cs arbitrary: t) simp_all

lemma running_zero:
  "k < length cs \<Longrightarrow> \<forall>j\<le>k. Weight_wr (cs ! j) = 0 \<Longrightarrow> running t cs ! k = t"
proof (induction cs arbitrary: t k)
  case Nil
  then show ?case by simp
next
  case (Cons c cs)
  from Cons.prems(2) have c0: "Weight_wr c = 0"
    by (metis le0 nth_Cons_0)
  show ?case
  proof (cases k)
    case 0
    then show ?thesis by (simp add: c0)
  next
    case (Suc k')
    have "\<forall>j\<le>k'. Weight_wr (cs ! j) = 0"
      using Cons.prems(2) Suc by (metis Suc_le_mono nth_Cons_Suc)
    with Cons.prems(1) Suc have "running t cs ! k' = t"
      by (intro Cons.IH) simp_all
    then show ?thesis by (simp add: Suc c0)
  qed
qed

lemma searchInts_loop_stop:
  "i \<le> j \<Longrightarrow> j \<le> length a \<Longrightarrow> j = length a \<or> \<not> a ! j <s x \<Longrightarrow>
   (let k = searchInts_loop a x i j in k \<le> length a \<and> (k = length a \<or> \<not> a ! k <s x))"
proof (induction a x i j rule: searchInts_loop.induct)
  case (1 a x i j)
  show ?case
  proof (cases "i < j")
    case False
    with "1.prems" have "i = j" by simp
    with False "1.prems" show ?thesis
      by (subst searchInts_loop.simps) (simp add: Let_def)
  next
    case True
    let ?h = "(i + j) div 2"
    have h: "i \<le> ?h" "?h < j" using True by simp_all
    show ?thesis
    proof (cases "a ! ?h <s x")
      case lt: True
      have "let k = searchInts_loop a x (?h + 1) j in k \<le> length a \<and> (k = length a \<or> \<not> a ! k <s x)"
        using "1.IH"(1) [OF True refl lt] h "1.prems" by simp
      with True lt show ?thesis
        by (subst searchInts_loop.simps) (simp add: Let_def)
    next
      case ge: False
      have "let k = searchInts_loop a x i ?h in k \<le> length a \<and> (k = length a \<or> \<not> a ! k <s x)"
        using "1.IH"(2) [OF True refl ge] h "1.prems" ge by simp
      with True ge show ?thesis
        by (subst searchInts_loop.simps) (simp add: Let_def)
    qed
  qed
qed

lemma searchInts_stop:
  "searchInts a x < length a \<Longrightarrow> \<not> a ! searchInts a x <s x"
  using searchInts_loop_stop [of 0 "length a" a x] by (simp add: searchInts_def Let_def)

lemma sint_succ:
  assumes "0 \<le> v" "v < sint (m :: 64 word)"
  shows "sint (word_of_int v + 1 :: 64 word) = v + 1"
proof -
  have "sint m < 2 ^ 63"
    using sint_lt [of m] by simp
  with assms have b: "- (2 ^ 63) \<le> v + 1" "v + 1 < 2 ^ 63"
    by linarith+
  have e: "(word_of_int v + 1 :: 64 word) = word_of_int (v + 1)"
    by simp
  have stb: "signed_take_bit 63 (v + 1) = v + 1"
    by (rule signed_take_bit_int_eq_self) (use b in simp_all)
  show ?thesis
    unfolding e sint_sbintrunc' using stb by simp
qed

lemma NewChooser_Some:
  assumes "NewChooser env choices = Some c"
  shows "data c = sort_Slice env choices \<and> totals c = running 0 (data c)
         \<and> \<not> max_total c <s 1"
proof -
  from assms obtain ts rt where
    tl: "totals_loop (sort_Slice env choices) 0 [] = Some (ts, rt)" and
    c: "c = \<lparr>data = sort_Slice env choices, totals = ts, max_total = rt\<rparr>" and
    rt: "\<not> rt <s 1"
    by (auto simp: NewChooser_def Let_def split: option.splits if_splits)
  from totals_loop_running [OF tl] c rt show ?thesis
    by simp
qed

lemma Pick_nonzero:
  assumes rng: "rng_ok env"
    and srt: "sorted (map Weight_wr (data c))"
    and tot: "totals c = running 0 (data c)"
    and pick: "Pick env c g = (Inr out, g')"
  shows "\<exists>i<length (data c). out = Item (data c ! i) \<and> Weight_wr (data c ! i) \<noteq> 0"
proof -
  obtain v g1 where iv: "rand_Intn env (sint (max_total c)) g = (v, g1)"
    by (cases "rand_Intn env (sint (max_total c)) g")
  define r :: "64 word" where "r = word_of_int v + 1"
  define i where "i = searchInts (totals c) r"
  from pick have pos: "0 < sint (max_total c)"
    by (auto simp: Pick_def split: if_splits)
  with pick iv have i: "i < length (data c)" and out: "out = Item (data c ! i)"
    by (auto simp: Pick_def Let_def r_def i_def split: if_splits)
  from rng pos iv have v: "0 \<le> v" "v < sint (max_total c)"
    unfolding rng_ok_def by (metis fst_conv)+
  have r1: "sint r = v + 1"
    unfolding r_def by (rule sint_succ [OF v])
  have len: "length (totals c) = length (data c)"
    by (simp add: tot running_length)
  have stop: "\<not> totals c ! i <s r"
    using searchInts_stop [of "totals c" r] i len by (simp add: i_def)
  have "Weight_wr (data c ! i) \<noteq> 0"
  proof
    assume z: "Weight_wr (data c ! i) = 0"
    have "\<forall>j\<le>i. Weight_wr (data c ! j) = 0"
    proof (intro allI impI)
      fix j assume "j \<le> i"
      with srt i have "map Weight_wr (data c) ! j \<le> map Weight_wr (data c) ! i"
        by (intro sorted_nth_mono) simp_all
      with \<open>j \<le> i\<close> i z show "Weight_wr (data c ! j) = 0"
        by simp
    qed
    from running_zero [OF i this] have "totals c ! i = 0"
      by (simp add: tot)
    with stop have "\<not> (0 :: 64 word) <s r"
      by simp
    with r1 v show False
      by (simp add: word_sless_alt)
  qed
  with i out show ?thesis
    by blast
qed

lemma uint_of_float32_fraction: "0 \<le> w \<Longrightarrow> w < 1 \<Longrightarrow> uint_of_float32 env w = 0"
proof -
  assume a: "0 \<le> w" "w < 1"
  then have "\<lfloor>w\<rfloor> = 0" by linarith
  moreover have "w < 2 ^ 64" using a by (simp add: less_le_trans [of w 1])
  ultimately show ?thesis using a by (simp add: uint_of_float32_def)
qed

lemma totals_loop_zero:
  "\<forall>c\<in>set cs. Weight_wr c = 0 \<Longrightarrow> \<exists>ts. totals_loop cs 0 acc = Some (ts, 0)"
proof (induction cs arbitrary: acc)
  case Nil
  show ?case by simp
next
  case (Cons c cs)
  have "\<not> maxInt \<le>s (0 :: 64 word)"
    by (simp add: maxInt_def word_sle_eq)
  with Cons show ?case
    by (simp add: Let_def)
qed

lemma NewChooser_zero:
  assumes "sort_ok env" "\<forall>c\<in>set choices. Weight_wr c = 0"
  shows "NewChooser env choices = None"
proof -
  from assms(1) have "set (sort_Slice env choices) = set choices"
    unfolding sort_ok_def by (metis mset_eq_setD)
  with assms(2) have "\<forall>c\<in>set (sort_Slice env choices). Weight_wr c = 0"
    by simp
  from totals_loop_zero [OF this, of "[]"] obtain ts where
    "totals_loop (sort_Slice env choices) 0 [] = Some (ts, 0)"
    by blast
  then show ?thesis
    by (simp add: NewChooser_def Let_def word_sless_alt)
qed

lemma getSubnets_zero_total:
  assumes "sort_ok env" "ReadVarint seed = Some s"
    and "\<forall>cj\<in>set (WeightedSubnets sc). 0 \<le> Weight cj \<and> Weight cj < 1"
  shows "getSubnets env io g sc seed True = (Inl NilDereference, rand_Seed env s)"
proof -
  have "NewChooser env (map (\<lambda>cjSubnet. \<lparr>Item = Subnets cjSubnet,
           Weight_wr = uint_of_float32 env (Weight cjSubnet)\<rparr>) (WeightedSubnets sc)) = None"
    using assms(3) by (intro NewChooser_zero [OF assms(1)]) (auto simp: uint_of_float32_fraction)
  then show ?thesis
    by (simp add: getSubnets_def assms(2))
qed

lemma getSubnets_weighted_pick:
  assumes rng: "rng_ok env" and srt: "sort_ok env"
    and rv: "ReadVarint seed = Some s"
    and gs: "getSubnets env io g sc seed True = (Inr out, g')"
  shows "\<exists>cj\<in>set (WeightedSubnets sc). Subnets cj = out \<and> uint_of_float32 env (Weight cj) \<noteq> 0"
proof -
  let ?choices = "map (\<lambda>cjSubnet. \<lparr>Item = Subnets cjSubnet,
           Weight_wr = uint_of_float32 env (Weight cjSubnet)\<rparr>) (WeightedSubnets sc)"
  from gs rv obtain c where nc: "NewChooser env ?choices = Some c"
    and pk: "Pick env c (before_Intn io (rand_Seed env s)) = (Inr out, g')"
    by (auto simp: getSubnets_def Let_def split: option.splits)
  from NewChooser_Some [OF nc] have d: "data c = sort_Slice env ?choices"
    and t: "totals c = running 0 (data c)"
    by simp_all
  from srt d have sorted: "sorted (map Weight_wr (data c))"
    and same: "set (data c) = set ?choices"
    unfolding sort_ok_def by (simp, metis mset_eq_setD)
  from Pick_nonzero [OF rng sorted t pk] obtain i where
    i: "i < length (data c)" and out: "out = Item (data c ! i)"
    and nz: "Weight_wr (data c ! i) \<noteq> 0"
    by blast
  from i same have "data c ! i \<in> set ?choices"
    by (metis nth_mem)
  then obtain cj where "cj \<in> set (WeightedSubnets sc)"
    and "data c ! i = \<lparr>Item = Subnets cj, Weight_wr = uint_of_float32 env (Weight cj)\<rparr>"
    by auto
  with out nz show ?thesis
    by auto
qed

subsection \<open>When the weighted draw returns\<close>

lemma sint_small:
  assumes "uint (x :: 64 word) < 2 ^ 63"
  shows "sint x = uint x"
proof -
  have "sint x = signed_take_bit 63 (uint x)"
    by (simp add: sint_uint)
  also have "\<dots> = uint x"
  proof (rule signed_take_bit_int_eq_self)
    have "- (2 ^ 63) \<le> (0 :: int)" by simp
    also have "0 \<le> uint x" by simp
    finally show "- (2 ^ 63) \<le> uint x" .
    show "uint x < 2 ^ 63" using assms .
  qed
  finally show ?thesis .
qed

lemma uint_maxInt: "uint maxInt = 2 ^ 63 - 1"
  by (simp add: maxInt_def)

lemma no_overflow_step:
  assumes "uint (t :: 64 word) + uint (w :: 64 word) < 2 ^ 63 - 1"
  shows "\<not> maxInt - t \<le>s w" and "uint (t + w) = uint t + uint w"
proof -
  have t0: "0 \<le> uint t" and w0: "0 \<le> uint w"
    by simp_all
  have t: "uint t < 2 ^ 63" and w: "uint w < 2 ^ 63"
    using assms t0 w0 by linarith+
  have le: "uint t \<le> uint maxInt"
    using t by (simp only: uint_maxInt)
  have d: "uint (maxInt - t) = 2 ^ 63 - 1 - uint t"
    using uint_sub_lem [THEN iffD1, OF le] by (simp only: uint_maxInt)
  then have "uint (maxInt - t) < 2 ^ 63"
    using t0 by linarith
  from sint_small [OF this] d have a: "sint (maxInt - t) = 2 ^ 63 - 1 - uint t"
    by (simp only:)
  have b: "sint w = uint w"
    using sint_small [OF w] .
  show "\<not> maxInt - t \<le>s w"
    unfolding word_sle_eq a b using assms by linarith
  have "uint t + uint w < 2 ^ LENGTH(64)"
    using assms by simp
  then show "uint (t + w) = uint t + uint w"
    by (rule uint_add_lem [THEN iffD1])
qed

lemma totals_loop_total:
  "uint t + weight_sum cs < 2 ^ 63 - 1 \<Longrightarrow>
   \<exists>ts rt. totals_loop cs t acc = Some (ts, rt) \<and> uint rt = uint t + weight_sum cs"
proof (induction cs arbitrary: t acc)
  case Nil
  show ?case by (simp add: weight_sum_def)
next
  case (Cons c cs)
  let ?w = "Weight_wr c"
  have ws: "weight_sum (c # cs) = uint ?w + weight_sum cs"
    by (simp add: weight_sum_def)
  have nn: "0 \<le> weight_sum cs"
    unfolding weight_sum_def by (rule sum_list_nonneg) auto
  from Cons.prems nn have b: "uint t + uint ?w < 2 ^ 63 - 1"
    unfolding ws by linarith
  note st = no_overflow_step [OF b]
  from Cons.prems st(2) have "uint (t + ?w) + weight_sum cs < 2 ^ 63 - 1"
    unfolding ws by linarith
  from Cons.IH [OF this, of "acc @ [t + ?w]"] obtain ts rt where
    "totals_loop cs (t + ?w) (acc @ [t + ?w]) = Some (ts, rt)"
    and "uint rt = uint (t + ?w) + weight_sum cs"
    by blast
  with st ws show ?case
    by (simp add: Let_def)
qed

lemma totals_loop_last:
  "totals_loop cs t acc = Some (ts, rt) \<Longrightarrow> acc = [] \<or> last acc = t \<Longrightarrow>
   (ts = [] \<longrightarrow> cs = [] \<and> acc = []) \<and> (ts \<noteq> [] \<longrightarrow> last ts = rt)"
proof (induction cs arbitrary: t acc)
  case Nil
  then show ?case by auto
next
  case (Cons c cs)
  from Cons.prems(1) have
    "totals_loop cs (t + Weight_wr c) (acc @ [t + Weight_wr c]) = Some (ts, rt)"
    by (simp add: Let_def split: if_splits)
  from Cons.IH [OF this] show ?case by simp
qed

lemma searchInts_loop_lower:
  "i \<le> j \<Longrightarrow> i = 0 \<or> a ! (i - 1) <s x \<Longrightarrow>
   (let k = searchInts_loop a x i j in k \<le> j \<and> (k = 0 \<or> a ! (k - 1) <s x))"
proof (induction a x i j rule: searchInts_loop.induct)
  case (1 a x i j)
  show ?case
  proof (cases "i < j")
    case False
    with "1.prems" show ?thesis
      by (subst searchInts_loop.simps) (simp add: Let_def)
  next
    case True
    let ?h = "(i + j) div 2"
    have h: "i \<le> ?h" "?h < j" using True by simp_all
    show ?thesis
    proof (cases "a ! ?h <s x")
      case lt: True
      have "let k = searchInts_loop a x (?h + 1) j in k \<le> j \<and> (k = 0 \<or> a ! (k - 1) <s x)"
        using "1.IH"(1) [OF True refl lt] h lt by simp
      with True lt show ?thesis
        by (subst searchInts_loop.simps) (simp add: Let_def)
    next
      case ge: False
      have "let k = searchInts_loop a x i ?h in k \<le> ?h \<and> (k = 0 \<or> a ! (k - 1) <s x)"
        using "1.IH"(2) [OF True refl ge] h "1.prems" by simp
      with True ge h show ?thesis
        by (subst searchInts_loop.simps) (auto simp: Let_def)
    qed
  qed
qed

lemma searchInts_in_range:
  assumes "a \<noteq> []" and "\<not> last a <s x"
  shows "searchInts a x < length a"
proof -
  let ?k = "searchInts a x"
  from searchInts_loop_lower [of 0 "length a" a x]
  have k: "?k \<le> length a" "?k = 0 \<or> a ! (?k - 1) <s x"
    by (simp_all add: searchInts_def Let_def)
  show ?thesis
  proof (rule ccontr)
    assume "\<not> ?k < length a"
    with k(1) have e: "?k = length a" by simp
    with assms(1) have "?k \<noteq> 0" by simp
    with k(2) e have "a ! (length a - 1) <s x" by simp
    with assms show False by (simp add: last_conv_nth)
  qed
qed

lemma Pick_returns:
  assumes rng: "rng_ok env"
    and pos: "0 < sint (max_total c)"
    and ne: "totals c \<noteq> []"
    and lst: "last (totals c) = max_total c"
    and len: "length (totals c) = length (data c)"
  shows "\<exists>out g'. Pick env c g = (Inr out, g')"
proof -
  obtain v g1 where iv: "rand_Intn env (sint (max_total c)) g = (v, g1)"
    by (cases "rand_Intn env (sint (max_total c)) g")
  from rng pos iv have v: "0 \<le> v" "v < sint (max_total c)"
    unfolding rng_ok_def by (metis fst_conv)+
  have "sint (word_of_int v + 1 :: 64 word) = v + 1"
    by (rule sint_succ [OF v])
  with v have "\<not> max_total c <s word_of_int v + 1"
    by (simp add: word_sless_alt)
  with ne lst have "searchInts (totals c) (word_of_int v + 1) < length (totals c)"
    by (intro searchInts_in_range) simp_all
  with pos iv len show ?thesis
    by (simp add: Pick_def Let_def)
qed

lemma weight_sum_mset: "weight_sum cs = sum_mset (image_mset (\<lambda>c. uint (Weight_wr c)) (mset cs))"
  unfolding weight_sum_def by (simp flip: sum_mset_sum_list)

lemma weight_sum_member: "c \<in> set cs \<Longrightarrow> uint (Weight_wr c) \<le> weight_sum cs"
proof (induction cs)
  case Nil
  then show ?case by simp
next
  case (Cons a cs)
  have nn: "0 \<le> weight_sum cs"
    unfolding weight_sum_def by (rule sum_list_nonneg) auto
  have ws: "weight_sum (a # cs) = uint (Weight_wr a) + weight_sum cs"
    by (simp add: weight_sum_def)
  from Cons nn show ?case
    unfolding ws by (cases "c = a") (auto intro: order_trans)
qed

lemma NewChooser_returns:
  assumes srt: "sort_ok env"
    and sum: "weight_sum choices < 2 ^ 63 - 1"
    and some: "\<exists>c\<in>set choices. Weight_wr c \<noteq> 0"
  shows "\<exists>c. NewChooser env choices = Some c \<and> 0 < sint (max_total c)
           \<and> totals c \<noteq> [] \<and> last (totals c) = max_total c
           \<and> length (totals c) = length (data c)"
proof -
  let ?cs = "sort_Slice env choices"
  from srt have ms: "mset ?cs = mset choices"
    by (simp add: sort_ok_def)
  then have ws: "weight_sum ?cs = weight_sum choices"
    by (simp add: weight_sum_mset)
  with sum have "uint (0 :: 64 word) + weight_sum ?cs < 2 ^ 63 - 1"
    by simp
  from totals_loop_total [OF this, of "[]"] obtain ts rt where
    tl: "totals_loop ?cs 0 [] = Some (ts, rt)" and rt: "uint rt = weight_sum choices"
    using ws by auto
  from some obtain c0 where c0: "c0 \<in> set choices" "Weight_wr c0 \<noteq> 0"
    by blast
  then have "0 < uint (Weight_wr c0)"
    by (simp add: word_greater_zero_iff [symmetric] word_less_def)
  with weight_sum_member [OF c0(1)] rt have pos: "0 < uint rt"
    by linarith
  from rt sum have "uint rt < 2 ^ 63"
    by linarith
  from sint_small [OF this] pos have sp: "0 < sint rt"
    by simp
  then have n1: "\<not> rt <s 1"
    by (simp add: word_sless_alt)
  from ms c0 have "?cs \<noteq> []"
    by (metis mset_eq_setD empty_iff list.set(1))
  with totals_loop_last [OF tl] have "ts \<noteq> []" "last ts = rt"
    by auto
  moreover from totals_loop_running [OF tl] have "length ts = length ?cs"
    by (simp add: running_length)
  ultimately show ?thesis
    using tl n1 sp by (simp add: NewChooser_def Let_def)
qed

section \<open>The decoy picker\<close>

lemma clamp_Timeout_frame:
  assumes "clamp_Timeout lims (d, st) = (c, st')"
  shows "specs st' = specs st \<and> next_word st \<le> next_word st'
         \<and> (\<forall>q<next_word st. words st' q = words st q)
         \<and> c = d\<lparr>Timeout := Timeout c\<rparr>
         \<and> (if GetTimeout st d < timeoutMin lims
             then GetTimeout st' c = timeoutMax lims \<and> Timeout c = Some (next_word st)
                  \<and> next_word st' = Suc (next_word st)
             else c = d \<and> st' = st)"
  using assms by (auto simp: clamp_Timeout_def new_word_def GetTimeout_def split: if_splits)

lemma clamp_Tcpwin_frame:
  assumes "clamp_Tcpwin lims (d, st) = (c, st')"
  shows "specs st' = specs st \<and> next_word st \<le> next_word st'
         \<and> (\<forall>q<next_word st. words st' q = words st q)
         \<and> c = d\<lparr>Tcpwin := Tcpwin c\<rparr>
         \<and> (if GetTcpwin st d < sendLimitMin lims
             then GetTcpwin st' c = sendLimitMax lims \<and> Tcpwin c = Some (next_word st)
                  \<and> next_word st' = Suc (next_word st)
             else c = d \<and> st' = st)"
  using assms by (auto simp: clamp_Tcpwin_def new_word_def GetTcpwin_def split: if_splits)

lemma GetDecoy_empty:
  "GetTlsDecoys (GetDecoyList (config a)) = [] \<Longrightarrow>
   GetDecoy lims getRandInt a st = (Inr zero_TLSDecoySpec, st)"
  by (simp add: GetDecoy_def)

lemma GetDecoy_selected:
  assumes "selects getRandInt a st p d"
  shows "GetDecoy lims getRandInt a st
         = (case clamp_Tcpwin lims (clamp_Timeout lims (d, st)) of (c, st') \<Rightarrow> (Inr c, st'))"
  using assms by (auto simp: selects_def GetDecoy_def Let_def)

lemma GetDecoy_clamps:
  assumes sel: "selects getRandInt a st p d" and al: "allocated st d"
  shows "\<exists>c st'. GetDecoy lims getRandInt a st = (Inr c, st')
           \<and> GetTimeout st' c
               = (if GetTimeout st d < timeoutMin lims then timeoutMax lims else GetTimeout st d)
           \<and> GetTcpwin st' c
               = (if GetTcpwin st d < sendLimitMin lims then sendLimitMax lims else GetTcpwin st d)
           \<and> Hostname c = Hostname d \<and> Ipv4Addr c = Ipv4Addr d \<and> Ipv6Addr c = Ipv6Addr d
           \<and> Pubkey c = Pubkey d
           \<and> specs st' = specs st \<and> specs st' p = Some d
           \<and> (\<forall>q<next_word st. words st' q = words st q)
           \<and> GetTimeout st' d = GetTimeout st d \<and> GetTcpwin st' d = GetTcpwin st d"
proof -
  obtain c1 st1 where c1: "clamp_Timeout lims (d, st) = (c1, st1)"
    by (cases "clamp_Timeout lims (d, st)")
  obtain c2 st2 where c2: "clamp_Tcpwin lims (c1, st1) = (c2, st2)"
    by (cases "clamp_Tcpwin lims (c1, st1)")
  note f1 = clamp_Timeout_frame [OF c1]
  note f2 = clamp_Tcpwin_frame [OF c2]
  have res: "GetDecoy lims getRandInt a st = (Inr c2, st2)"
    by (simp add: GetDecoy_selected [OF sel] c1 c2)
  have keep: "\<forall>q<next_word st. words st2 q = words st q"
    using f1 f2 by auto
  have t1: "GetTimeout st1 c1
            = (if GetTimeout st d < timeoutMin lims then timeoutMax lims else GetTimeout st d)"
    using f1 by (auto split: if_splits)
  have tp: "case Timeout c1 of None \<Rightarrow> True | Some q \<Rightarrow> q < next_word st1"
    using f1 al by (auto simp: allocated_def split: if_splits option.splits)
  have "Timeout c2 = Timeout c1"
    using f2 by (metis TLSDecoySpec.select_convs(5) TLSDecoySpec.surjective TLSDecoySpec.update_convs(6))
  then have t2: "GetTimeout st2 c2 = GetTimeout st1 c1"
    using f2 tp by (auto simp: GetTimeout_def split: option.splits)
  have w0: "GetTcpwin st1 c1 = GetTcpwin st d"
  proof -
    have "Tcpwin c1 = Tcpwin d"
      using f1 by (metis TLSDecoySpec.select_convs(6) TLSDecoySpec.surjective TLSDecoySpec.update_convs(5))
    then show ?thesis
      using f1 al by (auto simp: GetTcpwin_def allocated_def split: option.splits)
  qed
  have w2: "GetTcpwin st2 c2
            = (if GetTcpwin st d < sendLimitMin lims then sendLimitMax lims else GetTcpwin st d)"
    using f2 w0 by (auto split: if_splits)
  have other: "Hostname c2 = Hostname d \<and> Ipv4Addr c2 = Ipv4Addr d \<and> Ipv6Addr c2 = Ipv6Addr d
               \<and> Pubkey c2 = Pubkey d"
  proof -
    from f1 have a: "c1 = d\<lparr>Timeout := Timeout c1\<rparr>" by simp
    from f2 have b: "c2 = c1\<lparr>Tcpwin := Tcpwin c2\<rparr>" by simp
    have "Hostname c1 = Hostname d \<and> Ipv4Addr c1 = Ipv4Addr d \<and> Ipv6Addr c1 = Ipv6Addr d
               \<and> Pubkey c1 = Pubkey d"
      by (subst a, simp)+
    moreover have "Hostname c2 = Hostname c1 \<and> Ipv4Addr c2 = Ipv4Addr c1 \<and> Ipv6Addr c2 = Ipv6Addr c1
               \<and> Pubkey c2 = Pubkey c1"
      by (subst b, simp)+
    ultimately show ?thesis by simp
  qed
  have sp: "specs st2 = specs st"
    using f1 f2 by simp
  have pd: "specs st2 p = Some d"
    using sel sp by (simp add: selects_def Let_def)
  have stored: "GetTimeout st2 d = GetTimeout st d \<and> GetTcpwin st2 d = GetTcpwin st d"
    using keep al by (auto simp: GetTimeout_def GetTcpwin_def allocated_def split: option.splits)
  show ?thesis
    using res t1 t2 w2 other sp pd keep stored by simp
qed

section \<open>Worked examples\<close>

lemma Mask_Size_30: "Mask_Size [255, 255, 255, 252] = (30, 32)"
  by (simp add: Mask_Size_def simpleMaskLength_def)

lemma idNets_10_30:
  "idNets_loop [net_10_30] 0 [] = Inr (3, [\<lparr>min_id = 0, max_id = 3, net_id = net_10_30\<rparr>])"
  by (simp add: net_10_30_def Mask_Size_30 To4_def Exp_def)

lemma parse_10_30: "parseSubnets example_env [''10.0.0.0/30''] = Inr [net_10_30]"
  by (simp add: parseSubnets_def example_env_def example_nets_def)

lemma ReadVarint_2: "ReadVarint [2] = Some 1"
  by (simp add: ReadVarint_def ReadUvarint_def)

lemma net_base_10_30: "net_base net_10_30 = 167772160"
  by (simp add: net_base_def net_10_30_def To4_def SetBytes_def)

lemma Bytes_10_0_0_0: "Bytes 167772160 = [10, 0, 0, 0]"
  by (simp add: Bytes_def Bytes_nat.simps)

lemma example_Read_4: "rand_Read example_env 4 1 = ([1, 2, 3, 4], 5)"
  by (simp add: example_env_def upt_rec)

lemma SelectAddr_example:
  "SelectAddrFromSubnet example_env alone g [2] net_10_30 = (Inr [10, 0, 0, 0], 5)"
proof -
  have ms: "Mask_Size (Mask net_10_30) = (30, 32)"
    by (simp add: net_10_30_def Mask_Size_30)
  have rs: "rand_Seed example_env 1 = 1"
    by (simp add: example_env_def)
  have v: "SetBytes [1, 2, 3, 4] AND mask 2 = (0 :: int)"
    by (simp add: SetBytes_def mask_eq_exp_minus_1)
  show ?thesis
    by (simp add: SelectAddr_unfold [OF ms] ReadVarint_2 rs example_Read_4 net_base_10_30 v
        Bytes_10_0_0_0)
qed

lemma SelectPhantom_example:
  "SelectPhantom example_env alone 0 [2] config_10_30 None False = (Inr [10, 0, 0, 0], 5)"
proof -
  have "selectIPAddr example_env alone 0 [2] [net_10_30] = (Inr [10, 0, 0, 0], 5)"
    unfolding selectIPAddr_def idNets_10_30
    by (simp add: SetBytes_def SelectAddr_example)
  then show ?thesis
    by (simp add: SelectPhantom_def getSubnets_unweighted config_10_30_def parse_10_30)
qed

lemma Mask_Size_32: "Mask_Size [255, 255, 255, 255] = (32, 32)"
  by (simp add: Mask_Size_def simpleMaskLength_def)

lemma Mask_Size_128:
  "Mask_Size [255, 255, 255, 255, 255, 255, 255, 255,
              255, 255, 255, 255, 255, 255, 255, 255] = (128, 128)"
  by (simp add: Mask_Size_def simpleMaskLength_def)

lemma idNets_10_32:
  "idNets_loop [net_10_32] 0 [] = Inr (0, [\<lparr>min_id = 0, max_id = 0, net_id = net_10_32\<rparr>])"
  by (simp add: net_10_32_def Mask_Size_32 To4_def Exp_def)

lemma idNets_v6_128:
  "idNets_loop [net_v6_128] 0 [] = Inr (0, [\<lparr>min_id = 0, max_id = 0, net_id = net_v6_128\<rparr>])"
  by (simp add: net_v6_128_def Mask_Size_128 To4_def To16_def Exp_def)

lemma parse_10_32: "parseSubnets example_env [''10.0.0.1/32''] = Inr [net_10_32]"
  by (simp add: parseSubnets_def example_env_def example_nets_def)

lemma Mask_Size_8: "Mask_Size [255, 0, 0, 0] = (8, 32)"
  by (simp add: Mask_Size_def simpleMaskLength_def)

lemma Mask_Size_96:
  "Mask_Size [255, 255, 255, 255, 255, 255, 255, 255, 255, 255, 255, 255, 0, 0, 0, 0] = (96, 128)"
  by (simp add: Mask_Size_def simpleMaskLength_def)

lemma net_base_nat64: "net_base net_nat64_96 = 0x64ff9b000000000000000000000000"
  by (simp add: net_base_def net_nat64_96_def To4_def To16_def SetBytes_def)

lemma net_base_0_8: "net_base net_0_8 = 0"
  by (simp add: net_base_def net_0_8_def To4_def SetBytes_def)

lemma SelectAddr_nat64_example:
  "SelectAddrFromSubnet example_env alone g [2] net_nat64_96
   = (Inr [0x64, 0xff, 0x9b, 0, 0, 0, 0, 0, 0, 0, 0, 13, 14, 15, 16], 17)"
proof -
  have ms: "Mask_Size (Mask net_nat64_96) = (96, 128)"
    by (simp add: net_nat64_96_def Mask_Size_96)
  have rs: "rand_Seed example_env 1 = 1"
    by (simp add: example_env_def)
  have rd: "rand_Read example_env 16 1 = ([1, 2, 3, 4, 5, 6, 7, 8, 9, 10, 11, 12, 13, 14, 15, 16], 17)"
    by (simp add: example_env_def upt_rec)
  have v: "SetBytes [1, 2, 3, 4, 5, 6, 7, 8, 9, 10, 11, 12, 13, 14, 15, 16] AND mask 32 = (0x0d0e0f10 :: int)"
    by (simp add: SetBytes_def mask_eq_exp_minus_1)
  have bs: "Bytes 0x64ff9b00000000000000000d0e0f10
            = [0x64, 0xff, 0x9b, 0, 0, 0, 0, 0, 0, 0, 0, 13, 14, 15, 16]"
    by (simp add: Bytes_def Bytes_nat.simps)
  show ?thesis
    by (simp add: SelectAddr_unfold [OF ms] ReadVarint_2 rs rd net_base_nat64 v bs)
qed

lemma rng_ok_example: "rng_ok example_env"
  by (simp add: rng_ok_def example_env_def)

lemma sort_ok_example: "sort_ok example_env"
  by (simp add: sort_ok_def example_env_def)

lemma uint_of_float32_3: "uint_of_float32 env 3 = 3"
proof -
  have "\<lfloor>3 :: rat\<rfloor> = 3" by simp
  then show ?thesis by (simp add: uint_of_float32_def)
qed

lemma searchInts_example: "searchInts [0, 3] 2 = 1"
  by (simp add: searchInts_def searchInts_loop.simps word_sless_alt)

lemma NewChooser_example:
  "NewChooser example_env
     [\<lparr>Item = [''192.168.0.0/24''], Weight_wr = 0\<rparr>, \<lparr>Item = [''10.0.0.0/30''], Weight_wr = 3\<rparr>]
   = Some \<lparr>data = [\<lparr>Item = [''192.168.0.0/24''], Weight_wr = 0\<rparr>,
                    \<lparr>Item = [''10.0.0.0/30''], Weight_wr = 3\<rparr>],
            totals = [0, 3], max_total = 3\<rparr>"
  by (simp add: NewChooser_def example_env_def maxInt_def word_sle_eq word_sless_alt)

lemma Pick_example:
  "Pick example_env \<lparr>data = [\<lparr>Item = [''192.168.0.0/24''], Weight_wr = 0\<rparr>,
                    \<lparr>Item = [''10.0.0.0/30''], Weight_wr = 3\<rparr>],
            totals = [0, 3], max_total = 3\<rparr> 1 = (Inr [''10.0.0.0/30''], 2)"
proof -
  have "rand_Intn example_env 3 1 = (1, 2)"
    by (simp add: example_env_def)
  then show ?thesis
    by (simp add: Pick_def searchInts_example)
qed

lemma getSubnets_example:
  assumes "0 \<le> w" "w < 1"
  shows "getSubnets example_env alone g (config_weighted w) [2] True = (Inr [''10.0.0.0/30''], 2)"
proof -
  have "rand_Seed example_env 1 = 1"
    by (simp add: example_env_def)
  then show ?thesis
    by (simp add: getSubnets_def ReadVarint_2 config_weighted_def uint_of_float32_3
        uint_of_float32_fraction [OF assms] NewChooser_example Pick_example)
qed

lemma host_bits_10_30: "host_bits net_10_30 = 2"
  by (simp add: host_bits_def net_10_30_def Mask_Size_30)

lemma To4_length: "To4 ip = Some x \<Longrightarrow> length x \<le> length ip"
  by (auto simp: To4_def split: if_splits)

lemma short_not_contained:
  assumes "length ip < length (fst (networkNumberAndMask n))"
  shows "\<not> Contains n ip"
proof -
  obtain nn m where nm: "networkNumberAndMask n = (nn, m)"
    by (cases "networkNumberAndMask n")
  have "length (case To4 ip of Some x \<Rightarrow> x | None \<Rightarrow> ip) \<le> length ip"
    by (cases "To4 ip") (simp_all add: To4_length)
  with assms nm have "length (case To4 ip of Some x \<Rightarrow> x | None \<Rightarrow> ip) \<noteq> length nn"
    by simp
  then show ?thesis
    by (simp add: Contains_def nm Let_def)
qed

lemma networkNumberAndMask_0_8:
  "networkNumberAndMask net_0_8 = ([0, 0, 0, 0], [255, 0, 0, 0])"
  by (simp add: networkNumberAndMask_def net_0_8_def To4_def)

lemma networkNumberAndMask_nat64:
  "length (fst (networkNumberAndMask net_nat64_96)) = 16"
  by (simp add: networkNumberAndMask_def net_nat64_96_def To4_def)

lemma SelectAddr_0_8_not_contained:
  "case fst (SelectAddrFromSubnet env io g seed net_0_8) of
     Inl e \<Rightarrow> e = VarintError
   | Inr ip \<Rightarrow> \<not> Contains net_0_8 ip"
proof -
  have ms: "Mask_Size (Mask net_0_8) = (8, 32)"
    by (simp add: net_0_8_def Mask_Size_8)
  have "case fst (SelectAddrFromSubnet env io g seed net_0_8) of
      Inl e \<Rightarrow> e = VarintError
    | Inr ip \<Rightarrow> length ip \<le> 3"
    by (rule SelectAddr_short [OF ms]) (simp add: net_base_0_8)
  then show ?thesis
    by (auto split: sum.splits intro!: short_not_contained simp: networkNumberAndMask_0_8)
qed

lemma SelectAddr_nat64_not_contained:
  "case fst (SelectAddrFromSubnet env io g seed net_nat64_96) of
     Inl e \<Rightarrow> e = VarintError
   | Inr ip \<Rightarrow> \<not> Contains net_nat64_96 ip"
proof -
  have ms: "Mask_Size (Mask net_nat64_96) = (96, 128)"
    by (simp add: net_nat64_96_def Mask_Size_96)
  have "case fst (SelectAddrFromSubnet env io g seed net_nat64_96) of
      Inl e \<Rightarrow> e = VarintError
    | Inr ip \<Rightarrow> length ip \<le> 15"
    by (rule SelectAddr_short [OF ms]) (simp add: net_base_nat64)
  then show ?thesis
    by (auto split: sum.splits intro!: short_not_contained simp: networkNumberAndMask_nat64)
qed

lemma selectIPAddr_lone_not_contained:
  assumes "\<And>ga. case fst (SelectAddrFromSubnet env io ga seed n) of
     Inl e \<Rightarrow> e = VarintError
   | Inr ip \<Rightarrow> \<not> Contains n ip"
  shows "case fst (selectIPAddr env io g seed [n]) of
     Inl e \<Rightarrow> True
   | Inr ip \<Rightarrow> \<not> Contains n ip"
proof (cases "selectIPAddr env io g seed [n]")
  case (Pair r g')
  show ?thesis
  proof (cases r)
    case (Inl e)
    with Pair show ?thesis by simp
  next
    case (Inr ip)
    with Pair have "selectIPAddr env io g seed [n] = (Inr ip, g')" by simp
    from selectIPAddr_source [OF this] obtain ga gb where
      "SelectAddrFromSubnet env io ga seed n = (Inr ip, gb)" by auto
    with assms [of ga] have "\<not> Contains n ip" by simp
    with Pair Inr show ?thesis by simp
  qed
qed

lemma parse_0_8: "parseSubnets example_env [''0.0.0.0/8''] = Inr [net_0_8]"
  by (simp add: parseSubnets_def example_env_def example_nets_def)

lemma idNets_0_8:
  "idNets_loop [net_0_8] 0 [] = Inr (16777215, [\<lparr>min_id = 0, max_id = 16777215, net_id = net_0_8\<rparr>])"
  by (simp add: net_0_8_def Mask_Size_8 To4_def Exp_def)

lemma Bytes_2_3_4: "Bytes 131844 = [2, 3, 4]"
  by (simp add: Bytes_def Bytes_nat.simps)

lemma SelectAddr_0_8_example:
  "SelectAddrFromSubnet example_env alone g [2] net_0_8 = (Inr [2, 3, 4], 5)"
proof -
  have ms: "Mask_Size (Mask net_0_8) = (8, 32)"
    by (simp add: net_0_8_def Mask_Size_8)
  have rs: "rand_Seed example_env 1 = 1"
    by (simp add: example_env_def)
  have v: "SetBytes [1, 2, 3, 4] AND mask 24 = (131844 :: int)"
    by (simp add: SetBytes_def mask_eq_exp_minus_1)
  show ?thesis
    by (simp add: SelectAddr_unfold [OF ms] ReadVarint_2 rs example_Read_4 net_base_0_8 v
        Bytes_2_3_4)
qed

lemma SelectPhantom_0_8_example:
  "SelectPhantom example_env alone 0 [2] config_0_8 None False = (Inr [2, 3, 4], 5)"
proof -
  have "selectIPAddr example_env alone 0 [2] [net_0_8] = (Inr [2, 3, 4], 5)"
    unfolding selectIPAddr_def idNets_0_8
    by (simp add: SetBytes_def SelectAddr_0_8_example)
  then show ?thesis
    by (simp add: SelectPhantom_def getSubnets_unweighted config_0_8_def parse_0_8)
qed

lemma candidates_0_8:
  "candidate_nets example_env alone 0 [2] config_0_8 None False = Some [net_0_8]"
  by (simp add: candidate_nets_def getSubnets_unweighted config_0_8_def parse_0_8)

lemma ReadVarint_4: "ReadVarint [4] = Some 2"
  by (simp add: ReadVarint_def ReadUvarint_def)

lemma SelectAddr_overlapped:
  "SelectAddrFromSubnet env (overlapped_by env 2) g [2] n = SelectAddrFromSubnet env alone g [4] n"
  by (cases "Mask_Size (Mask n)") (simp add: SelectAddr_unfold ReadVarint_2 ReadVarint_4)

lemma example_Read_4_2: "rand_Read example_env 4 2 = ([2, 3, 4, 5], 6)"
  by (simp add: example_env_def upt_rec)

lemma SelectAddr_overlapped_example:
  "SelectAddrFromSubnet example_env (overlapped_by example_env 2) g [2] net_10_30 = (Inr [10, 0, 0, 1], 6)"
proof -
  have ms: "Mask_Size (Mask net_10_30) = (30, 32)"
    by (simp add: net_10_30_def Mask_Size_30)
  have rs: "rand_Seed example_env 2 = 2"
    by (simp add: example_env_def)
  have v: "SetBytes [2, 3, 4, 5] AND mask 2 = (1 :: int)"
    by (simp add: SetBytes_def mask_eq_exp_minus_1)
  have bs: "Bytes 167772161 = [10, 0, 0, 1]"
    by (simp add: Bytes_def Bytes_nat.simps)
  show ?thesis
    by (simp add: SelectAddr_unfold [OF ms] ReadVarint_2 rs example_Read_4_2 net_base_10_30 v bs)
qed

lemma SelectPhantom_overlapped_example:
  "SelectPhantom example_env (overlapped_by example_env 2) 0 [2] config_10_30 None False = (Inr [10, 0, 0, 1], 6)"
proof -
  have "selectIPAddr example_env (overlapped_by example_env 2) 0 [2] [net_10_30] = (Inr [10, 0, 0, 1], 6)"
    unfolding selectIPAddr_def idNets_10_30
    by (simp add: SetBytes_def SelectAddr_overlapped_example)
  then show ?thesis
    by (simp add: SelectPhantom_def getSubnets_unweighted config_10_30_def parse_10_30)
qed

lemma selectIPAddr_10_30_eq:
  "selectIPAddr env io g seed [net_10_30] =
     (let id0 = SetBytes seed;
          ident = (if 3 < id0 then id0 mod 3 else id0)
      in if ident \<le> 3 \<and> 0 < ident then
           (case ReadVarint seed of
              None \<Rightarrow> (Inl (FailedToChooseIP VarintError), g)
            | Some seedInt \<Rightarrow>
                (case rand_Read env 4 (before_Read io (rand_Seed env seedInt)) of
                   (randBytes, g') \<Rightarrow>
                     (Inr (Bytes (167772160 + (SetBytes randBytes AND 3))), g')))
         else (Inl NoRangeFound, g))"
proof -
  have ms: "Mask_Size (Mask net_10_30) = (30, 32)"
    by (simp add: net_10_30_def Mask_Size_30)
  have m: "(mask 2 :: int) = 3"
    by (simp add: mask_eq_exp_minus_1)
  show ?thesis
    unfolding selectIPAddr_def idNets_10_30
    by (simp add: Let_def SelectAddr_unfold [OF ms] net_base_10_30 m
        split: option.splits prod.splits)
qed

lemma ReadVarint_85: "ReadVarint [0x85] = None"
  by (simp add: ReadVarint_def ReadUvarint_def)

lemma ReadVarint_1: "ReadVarint [1] = Some (- 1)"
  by (simp add: ReadVarint_def ReadUvarint_def)

lemma example_Read_4_minus_1: "rand_Read example_env 4 (- 1) = ([255, 0, 1, 2], 3)"
proof -
  have m: "(- 1 :: 64 word) = 0xFFFFFFFFFFFFFFFF"
    by simp
  show ?thesis
    unfolding m by (simp add: example_env_def upt_rec)
qed

lemma SelectPhantom_index_1_example:
  "SelectPhantom example_env alone 0 [1] config_10_30 None False = (Inr [10, 0, 0, 2], 3)"
proof -
  have rs: "rand_Seed example_env (- 1) = - 1"
    by (simp add: example_env_def)
  have v: "SetBytes [255, 0, 1, 2] AND 3 = (2 :: int)"
    by (simp add: SetBytes_def)
  have bs: "Bytes 167772162 = [10, 0, 0, 2]"
    by (simp add: Bytes_def Bytes_nat.simps)
  have "selectIPAddr example_env alone 0 [1] [net_10_30] = (Inr [10, 0, 0, 2], 3)"
    by (simp add: selectIPAddr_10_30_eq SetBytes_def ReadVarint_1 rs example_Read_4_minus_1 v bs)
  then show ?thesis
    by (simp add: SelectPhantom_def getSubnets_unweighted config_10_30_def parse_10_30)
qed

lemma SelectPhantom_no_varint_example:
  "SelectPhantom example_env alone 0 [0x85] config_10_30 None False
   = (Inl (FailedToChooseIP VarintError), 0)"
proof -
  have "selectIPAddr example_env alone 0 [0x85] [net_10_30] = (Inl (FailedToChooseIP VarintError), 0)"
    by (simp add: selectIPAddr_10_30_eq SetBytes_def ReadVarint_85)
  then show ?thesis
    by (simp add: SelectPhantom_def getSubnets_unweighted config_10_30_def parse_10_30)
qed

section \<open>The claims\<close>

text \<open>
  C1 (determinism). The claim asks that two invocations with the same secret,
  configuration, filter and weighting flag return the same result, in one process or in
  two. In the code \<open>rand.Seed\<close> and the draw that follows it are two calls on the
  process-wide generator, so a selection that another selection overlaps draws from the
  other selection's seed. For every generator, the address \<open>SelectAddrFromSubnet\<close>
  computes for the secret \<open>[2]\<close> (varint 1), when a selection for the secret \<open>[4]\<close> (varint 2)
  has seeded the generator in between, is the address it computes for the secret \<open>[4]\<close>.
  In the example environment the same call of \<open>SelectPhantom\<close> returns 10.0.0.0 when it
  has the generator to itself and 10.0.0.1 when it is overlapped.
\<close>

theorem overlapping_selection_changes_address:
  "SelectAddrFromSubnet env (overlapped_by env 2) g [2] n
     = SelectAddrFromSubnet env alone g [4] n
   \<and> SelectPhantom example_env alone 0 [2] config_10_30 None False = (Inr [10, 0, 0, 0], 5)
   \<and> SelectPhantom example_env (overlapped_by example_env 2) 0 [2] config_10_30 None False
       = (Inr [10, 0, 0, 1], 6)"
  using SelectAddr_overlapped [of env g n] SelectPhantom_example SelectPhantom_overlapped_example
  by simp

text \<open>
  C2 (range containment). The claim asks that a returned address lies inside a candidate
  network. The code returns the bytes of \<open>big.Int.Bytes\<close>, which has dropped the leading
  zero bytes: when the lone candidate is 0.0.0.0/8 or 64:ff9b::/96, every address the
  selection returns, for every secret and every generator, is shorter than an address of
  the candidate's family, and \<open>Contains\<close> of the candidate rejects it. In the example
  environment the secret \<open>[2]\<close> over 0.0.0.0/8 yields the three bytes \<open>[2, 3, 4]\<close>; the
  candidate contains the four bytes \<open>[0, 2, 3, 4]\<close> of 0.2.3.4, not the three.
\<close>

theorem selected_address_outside_candidate:
  "(case fst (selectIPAddr env io g seed [net_0_8]) of
      Inl e \<Rightarrow> True
    | Inr ip \<Rightarrow> \<not> Contains net_0_8 ip)
   \<and> (case fst (selectIPAddr env io g seed [net_nat64_96]) of
      Inl e \<Rightarrow> True
    | Inr ip \<Rightarrow> \<not> Contains net_nat64_96 ip)
   \<and> SelectPhantom example_env alone 0 [2] config_0_8 None False = (Inr [2, 3, 4], 5)
   \<and> candidate_nets example_env alone 0 [2] config_0_8 None False = Some [net_0_8]
   \<and> \<not> Contains net_0_8 [2, 3, 4]
   \<and> Contains net_0_8 [0, 2, 3, 4]"
proof -
  have a: "case fst (selectIPAddr env io g seed [net_0_8]) of
      Inl e \<Rightarrow> True
    | Inr ip \<Rightarrow> \<not> Contains net_0_8 ip"
    by (rule selectIPAddr_lone_not_contained) (rule SelectAddr_0_8_not_contained)
  have b: "case fst (selectIPAddr env io g seed [net_nat64_96]) of
      Inl e \<Rightarrow> True
    | Inr ip \<Rightarrow> \<not> Contains net_nat64_96 ip"
    by (rule selectIPAddr_lone_not_contained) (rule SelectAddr_nat64_not_contained)
  have c: "\<not> Contains net_0_8 [2, 3, 4]"
    by (rule short_not_contained) (simp add: networkNumberAndMask_0_8)
  have d: "Contains net_0_8 [0, 2, 3, 4]"
    by (simp add: Contains_def networkNumberAndMask_0_8 To4_def upt_rec)
  from a b c d SelectPhantom_0_8_example candidates_0_8 show ?thesis
    by blast
qed

text \<open>
  C4 (singleton subnet). The claim asks that a lone /32 or /128 candidate is always
  selected. In the code the running total grows by the size of a network less one, so a
  network of one address adds nothing, the total stays 0, and the selection fails with
  "No valid addresses specified" for every secret.
\<close>

theorem singleton_has_no_valid_addresses:
  "selectIPAddr env io g seed [net_10_32] = (Inl NoValidAddresses, g)
   \<and> selectIPAddr env io g seed [net_v6_128] = (Inl NoValidAddresses, g)
   \<and> SelectPhantom example_env alone g seed config_10_32 None False = (Inl NoValidAddresses, g)"
  unfolding selectIPAddr_def SelectPhantom_def getSubnets_def idNets_10_32 idNets_v6_128
  by (simp add: config_10_32_def parse_10_32 selectIPAddr_def idNets_10_32
      del: idNets_loop.simps)

text \<open>
  C5 (the defensive branch). The claim asks that the index always falls in a range. In
  the code a range holds the indices \<open>min < id \<le> max\<close> and the first range starts at
  \<open>min = 0\<close>, so index 0 is in no range: for 10.0.0.0/30 the total is 3, the secrets
  \<open>[0]\<close> (index 0) and \<open>[9]\<close> (index 9 mod 3 = 0) find no range, and the call fails with
  the error of the defensive branch.
\<close>

theorem no_range_for_index_zero:
  "selectIPAddr env io g [0] [net_10_30] = (Inl NoRangeFound, g)
   \<and> selectIPAddr env io g [9] [net_10_30] = (Inl NoRangeFound, g)"
  unfolding selectIPAddr_def idNets_10_30 by (simp add: SetBytes_def)

text \<open>
  C3 (the 10.0.0.0/30 scenario), as the code has it. With the single unweighted group
  \<open>["10.0.0.0/30"]\<close>, whenever the selection succeeds the secret starts with a varint and
  the returned address is 10.0.0.0 plus the two low bits of the four bytes the call reads
  from the process-wide generator after it has seeded it with that varint: one of
  10.0.0.0 .. 10.0.0.3, chosen by the generator and not by the index. Every call that has
  the generator to itself between \<open>rand.Seed\<close> and \<open>rand.Read\<close> then succeeds with the
  address from the first four bytes of the generator seeded with the varint, whatever
  state it finds the generator in.
\<close>

theorem phantom_10_30_from_generator:
  assumes p: "ParseCIDR env ''10.0.0.0/30'' = Some net_10_30"
    and s: "SelectPhantom env io g seed config_10_30 None False = (Inr ip, g')"
  shows "\<exists>seedInt. ReadVarint seed = Some seedInt
           \<and> ip = Bytes (167772160
                   + (SetBytes (fst (rand_Read env 4 (before_Read io (rand_Seed env seedInt))))
                      AND 3))
           \<and> 167772160 \<le> SetBytes ip \<and> SetBytes ip \<le> 167772163
           \<and> (\<forall>g2. fst (SelectPhantom env alone g2 seed config_10_30 None False)
                  = Inr (Bytes (167772160
                          + (SetBytes (fst (rand_Read env 4 (rand_Seed env seedInt))) AND 3))))"
proof -
  have ps: "parseSubnets env [''10.0.0.0/30''] = Inr [net_10_30]"
    by (simp add: parseSubnets_def p)
  have sp: "SelectPhantom env j h seed config_10_30 None False = selectIPAddr env j h seed [net_10_30]"
    for j h
    by (simp add: SelectPhantom_def getSubnets_unweighted config_10_30_def ps)
  let ?ident = "if 3 < SetBytes seed then SetBytes seed mod 3 else SetBytes seed"
  from s have sel: "selectIPAddr env io g seed [net_10_30] = (Inr ip, g')"
    by (simp add: sp)
  then have inr: "?ident \<le> 3 \<and> 0 < ?ident"
    by (simp add: selectIPAddr_10_30_eq Let_def split: if_splits)
  with sel obtain seedInt where rv: "ReadVarint seed = Some seedInt"
    by (cases "ReadVarint seed") (simp_all add: selectIPAddr_10_30_eq Let_def)
  from sel inr rv have
    ip: "ip = Bytes (167772160
           + (SetBytes (fst (rand_Read env 4 (before_Read io (rand_Seed env seedInt)))) AND 3))"
    by (auto simp: selectIPAddr_10_30_eq Let_def split: prod.splits)
  let ?x = "SetBytes (fst (rand_Read env 4 (before_Read io (rand_Seed env seedInt)))) AND (3 :: int)"
  have "(3 :: int) = mask 2"
    by (simp add: mask_eq_exp_minus_1)
  then have x: "0 \<le> ?x \<and> ?x < 4"
    using and_mask_bounds [of "SetBytes (fst (rand_Read env 4 (before_Read io (rand_Seed env seedInt))))" 2]
    by simp
  then have "SetBytes ip = 167772160 + ?x"
    unfolding ip by (intro SetBytes_Bytes) linarith
  with x have range: "167772160 \<le> SetBytes ip \<and> SetBytes ip \<le> 167772163"
    by linarith
  have "fst (SelectPhantom env alone g2 seed config_10_30 None False)
          = Inr (Bytes (167772160
                  + (SetBytes (fst (rand_Read env 4 (rand_Seed env seedInt))) AND 3)))" for g2
    using inr rv by (simp add: sp selectIPAddr_10_30_eq Let_def split: prod.splits)
  with rv ip range show ?thesis
    by blast
qed

theorem phantom_10_30_from_generator_witness:
  "ParseCIDR example_env ''10.0.0.0/30'' = Some net_10_30
   \<and> SelectPhantom example_env alone 0 [2] config_10_30 None False = (Inr [10, 0, 0, 0], 5)
   \<and> (\<exists>seedInt. ReadVarint [2] = Some seedInt
           \<and> [10, 0, 0, 0] = Bytes (167772160
                   + (SetBytes (fst (rand_Read example_env 4
                        (before_Read alone (rand_Seed example_env seedInt)))) AND 3))
           \<and> 167772160 \<le> SetBytes [10, 0, 0, 0] \<and> SetBytes [10, 0, 0, 0] \<le> 167772163
           \<and> (\<forall>g2. fst (SelectPhantom example_env alone g2 [2] config_10_30 None False)
                  = Inr (Bytes (167772160
                          + (SetBytes (fst (rand_Read example_env 4 (rand_Seed example_env seedInt)))
                             AND 3)))))"
proof -
  have p: "ParseCIDR example_env ''10.0.0.0/30'' = Some net_10_30"
    by (simp add: example_env_def example_nets_def)
  from phantom_10_30_from_generator [OF p SelectPhantom_example] p SelectPhantom_example
  show ?thesis by blast
qed

text \<open>
  C3 as stated fails where the index is in a range. The secret \<open>[1]\<close> encodes the index
  1; the selection succeeds with the address the generator seeded with its varint (-1)
  gives, in the example environment 10.0.0.2. The secret \<open>[0x85]\<close> encodes the index 133,
  which is 1 modulo 4 and which the code reduces to 1; its only byte announces a second
  varint byte that is not there, so no seed can be read and the selection fails.
\<close>

theorem index_one_not_10_0_0_1:
  "SetBytes [1] mod 4 = 1
   \<and> SelectPhantom example_env alone 0 [1] config_10_30 None False = (Inr [10, 0, 0, 2], 3)
   \<and> SetBytes [0x85] mod 4 = 1
   \<and> SelectPhantom example_env alone 0 [0x85] config_10_30 None False
       = (Inl (FailedToChooseIP VarintError), 0)"
  using SelectPhantom_index_1_example SelectPhantom_no_varint_example
  by (simp add: SetBytes_def)

text \<open>
  C9 (full-width encoding). The claim asks for 4 or 16 bytes. The code returns
  \<open>ipBigInt.Bytes()\<close>, which drops leading zero bytes: for the IPv6 network 64:ff9b::/96
  every returned address has at most 15 bytes, and for the IPv4 network 0.0.0.0/8 at most 3,
  whatever the secret and the generator. \<open>SelectAddr_nat64_example\<close> is one full run.
\<close>

theorem address_shorter_than_width:
  "(case fst (SelectAddrFromSubnet env io g seed net_nat64_96) of
      Inl e \<Rightarrow> e = VarintError
    | Inr ip \<Rightarrow> length ip \<le> 15)
   \<and> (case fst (SelectAddrFromSubnet env io g seed net_0_8) of
      Inl e \<Rightarrow> e = VarintError
    | Inr ip \<Rightarrow> length ip \<le> 3)"
proof
  have ms: "Mask_Size (Mask net_nat64_96) = (96, 128)"
    by (simp add: net_nat64_96_def Mask_Size_96)
  show "case fst (SelectAddrFromSubnet env io g seed net_nat64_96) of
      Inl e \<Rightarrow> e = VarintError
    | Inr ip \<Rightarrow> length ip \<le> 15"
    by (rule SelectAddr_short [OF ms]) (simp add: net_base_nat64)
next
  have ms: "Mask_Size (Mask net_0_8) = (8, 32)"
    by (simp add: net_0_8_def Mask_Size_8)
  show "case fst (SelectAddrFromSubnet env io g seed net_0_8) of
      Inl e \<Rightarrow> e = VarintError
    | Inr ip \<Rightarrow> length ip \<le> 3"
    by (rule SelectAddr_short [OF ms]) (simp add: net_base_0_8)
qed

text \<open>
  C6 (non-positive total weight). The claim asks for a returned error. In the code
  \<open>getSubnets\<close> discards the error of \<open>NewChooser\<close> and calls \<open>Pick\<close> on the nil
  chooser: whenever the secret starts with a varint and every weight truncates to 0
  (every weight is 0, or the list of groups is empty), the weighted call panics with a nil
  dereference, whatever the filter.
\<close>

theorem zero_total_weight_panics:
  assumes "sort_ok env" and "ReadVarint seed = Some s"
    and "\<forall>cj\<in>set (WeightedSubnets sc). 0 \<le> Weight cj \<and> Weight cj < 1"
  shows "fst (SelectPhantom env io g seed sc f True) = Inl NilDereference
         \<and> is_panic NilDereference"
proof -
  have "getSubnets env io g sc seed True = (Inl NilDereference, rand_Seed env s)"
    by (rule getSubnets_zero_total [OF assms])
  then have "SelectPhantom env io g seed sc f True = (Inl NilDereference, rand_Seed env s)"
    by (simp add: SelectPhantom_def)
  then show ?thesis
    by simp
qed

theorem zero_total_weight_panics_witness:
  "sort_ok example_env \<and> ReadVarint [2] = Some 1
   \<and> (\<exists>cj\<in>set (WeightedSubnets config_zero_weight). Weight cj = 0)
   \<and> fst (SelectPhantom example_env alone 0 [2] config_zero_weight None True) = Inl NilDereference
   \<and> is_panic NilDereference"
proof -
  have z: "\<forall>cj\<in>set (WeightedSubnets config_zero_weight). 0 \<le> Weight cj \<and> Weight cj < 1"
    by (simp add: config_zero_weight_def)
  from zero_total_weight_panics [OF sort_ok_example ReadVarint_2 z, of alone 0 None]
  show ?thesis
    by (simp add: sort_ok_example ReadVarint_2 config_zero_weight_def)
qed

text \<open>
  C7 (zero-weight exclusion). For a secret that starts with a varint, whatever the
  weighted \<open>getSubnets\<close> returns is the subnet list of a group whose weight is not 0.
\<close>

theorem weighted_pick_has_nonzero_weight:
  assumes "rng_ok env" and "sort_ok env" and "ReadVarint seed = Some s"
    and "getSubnets env io g sc seed True = (Inr out, g')"
  shows "\<exists>cj\<in>set (WeightedSubnets sc). Subnets cj = out \<and> Weight cj \<noteq> 0"
proof -
  from getSubnets_weighted_pick [OF assms] obtain cj where
    cj: "cj \<in> set (WeightedSubnets sc)" "Subnets cj = out"
    and nz: "uint_of_float32 env (Weight cj) \<noteq> 0"
    by blast
  from nz have "Weight cj \<noteq> 0"
    using uint_of_float32_fraction [of 0 env] by auto
  with cj show ?thesis
    by blast
qed

theorem weighted_pick_has_nonzero_weight_witness:
  "rng_ok example_env \<and> sort_ok example_env \<and> ReadVarint [2] = Some 1
   \<and> getSubnets example_env alone 0 (config_weighted 0) [2] True = (Inr [''10.0.0.0/30''], 2)
   \<and> (\<exists>cj\<in>set (WeightedSubnets (config_weighted 0)).
          Subnets cj = [''10.0.0.0/30''] \<and> Weight cj \<noteq> 0)"
proof -
  have gs: "getSubnets example_env alone 0 (config_weighted 0) [2] True = (Inr [''10.0.0.0/30''], 2)"
    by (rule getSubnets_example) simp_all
  from weighted_pick_has_nonzero_weight [OF rng_ok_example sort_ok_example ReadVarint_2 gs]
  show ?thesis
    by (simp add: rng_ok_example sort_ok_example ReadVarint_2 gs)
qed

text \<open>
  C10 (fractional weights). A weight strictly between 0 and 1 is converted to the
  unsigned weight 0, so the weighted \<open>getSubnets\<close> behaves on a configuration with such a
  group exactly as on the configuration in which that group has weight 0, and whatever it
  returns is the subnet list of one of the other groups, one whose weight is not in
  \<open>[0, 1)\<close>.
\<close>

theorem fractional_weight_never_selected:
  assumes "rng_ok env" and "sort_ok env" and "ReadVarint seed = Some s"
    and "0 < w" and "w < 1"
    and "getSubnets env io g \<lparr>WeightedSubnets = pre @ \<lparr>Weight = w, Subnets = subs\<rparr> # post\<rparr>
           seed True = (Inr out, g')"
  shows "uint_of_float32 env w = 0
         \<and> getSubnets env io g \<lparr>WeightedSubnets = pre @ \<lparr>Weight = w, Subnets = subs\<rparr> # post\<rparr>
               seed True
           = getSubnets env io g \<lparr>WeightedSubnets = pre @ \<lparr>Weight = 0, Subnets = subs\<rparr> # post\<rparr>
               seed True
         \<and> (\<exists>cj\<in>set (pre @ post). Subnets cj = out \<and> \<not> (0 \<le> Weight cj \<and> Weight cj < 1))"
proof -
  have w0: "uint_of_float32 env w = 0"
    using assms(4,5) by (intro uint_of_float32_fraction) simp_all
  have z0: "uint_of_float32 env 0 = 0"
    by (intro uint_of_float32_fraction) simp_all
  have same: "getSubnets env io g \<lparr>WeightedSubnets = pre @ \<lparr>Weight = w, Subnets = subs\<rparr> # post\<rparr>
               seed True
           = getSubnets env io g \<lparr>WeightedSubnets = pre @ \<lparr>Weight = 0, Subnets = subs\<rparr> # post\<rparr>
               seed True"
    by (simp add: getSubnets_def assms(3) w0 z0)
  from getSubnets_weighted_pick [OF assms(1,2,3,6)] obtain cj where
    mem: "cj \<in> set (WeightedSubnets
            \<lparr>WeightedSubnets = pre @ \<lparr>Weight = w, Subnets = subs\<rparr> # post\<rparr>)"
    and sub: "Subnets cj = out"
    and nz: "uint_of_float32 env (Weight cj) \<noteq> 0"
    by blast
  from nz w0 have "cj \<noteq> \<lparr>Weight = w, Subnets = subs\<rparr>"
    by auto
  with mem have "cj \<in> set (pre @ post)"
    by auto
  moreover from nz have "\<not> (0 \<le> Weight cj \<and> Weight cj < 1)"
    using uint_of_float32_fraction [of "Weight cj" env] by auto
  ultimately show ?thesis
    using w0 same sub by blast
qed

theorem fractional_weight_never_selected_witness:
  "rng_ok example_env \<and> sort_ok example_env \<and> ReadVarint [2] = Some 1
   \<and> (0 :: rat) < 1 / 2 \<and> (1 / 2 :: rat) < 1
   \<and> getSubnets example_env alone 0
        \<lparr>WeightedSubnets = [] @ \<lparr>Weight = 1 / 2, Subnets = [''192.168.0.0/24'']\<rparr>
                               # [\<lparr>Weight = 3, Subnets = [''10.0.0.0/30'']\<rparr>]\<rparr> [2] True
      = (Inr [''10.0.0.0/30''], 2)
   \<and> uint_of_float32 example_env (1 / 2) = 0
   \<and> getSubnets example_env alone 0
        \<lparr>WeightedSubnets = [] @ \<lparr>Weight = 1 / 2, Subnets = [''192.168.0.0/24'']\<rparr>
                               # [\<lparr>Weight = 3, Subnets = [''10.0.0.0/30'']\<rparr>]\<rparr> [2] True
      = getSubnets example_env alone 0
        \<lparr>WeightedSubnets = [] @ \<lparr>Weight = 0, Subnets = [''192.168.0.0/24'']\<rparr>
                               # [\<lparr>Weight = 3, Subnets = [''10.0.0.0/30'']\<rparr>]\<rparr> [2] True
   \<and> (\<exists>cj\<in>set ([] @ [\<lparr>Weight = 3, Subnets = [''10.0.0.0/30'']\<rparr>]).
          Subnets cj = [''10.0.0.0/30''] \<and> \<not> (0 \<le> Weight cj \<and> Weight cj < 1))"
proof -
  have gs: "getSubnets example_env alone 0
        \<lparr>WeightedSubnets = [] @ \<lparr>Weight = 1 / 2, Subnets = [''192.168.0.0/24'']\<rparr>
                               # [\<lparr>Weight = 3, Subnets = [''10.0.0.0/30'']\<rparr>]\<rparr> [2] True
      = (Inr [''10.0.0.0/30''], 2)"
    using getSubnets_example [of "1 / 2" 0] by (simp add: config_weighted_def)
  have h: "(0 :: rat) < 1 / 2" "(1 / 2 :: rat) < 1"
    by simp_all
  from fractional_weight_never_selected
         [OF rng_ok_example sort_ok_example ReadVarint_2 h gs]
  show ?thesis
    using gs h rng_ok_example sort_ok_example ReadVarint_2 by blast
qed

text \<open>
  C8 (clamping is copy-only). On an empty decoy list \<open>GetDecoy\<close> returns the zero record
  and leaves the store as it is. When it selects the stored record \<open>d\<close>, it returns a
  record \<open>c\<close> whose timeout is the maximum default if \<open>d\<close>'s timeout is below the minimum
  (and \<open>d\<close>'s timeout otherwise), likewise for the send window, and whose other fields are
  \<open>d\<close>'s; the stored records are the same as before, every \<open>uint32\<close> object that existed
  keeps its value, and so \<open>d\<close> still has the timeout and the send window it had.
\<close>

theorem GetDecoy_clamps_copy_only:
  "(GetTlsDecoys (GetDecoyList (config a0)) = [] \<longrightarrow>
      GetDecoy lims getRandInt a0 st0 = (Inr zero_TLSDecoySpec, st0))
   \<and> (selects getRandInt a st p d \<and> allocated st d \<longrightarrow>
        (\<exists>c st'. GetDecoy lims getRandInt a st = (Inr c, st')
           \<and> GetTimeout st' c
               = (if GetTimeout st d < timeoutMin lims then timeoutMax lims else GetTimeout st d)
           \<and> GetTcpwin st' c
               = (if GetTcpwin st d < sendLimitMin lims then sendLimitMax lims else GetTcpwin st d)
           \<and> Hostname c = Hostname d \<and> Ipv4Addr c = Ipv4Addr d \<and> Ipv6Addr c = Ipv6Addr d
           \<and> Pubkey c = Pubkey d
           \<and> specs st' = specs st \<and> specs st' p = Some d
           \<and> (\<forall>q<next_word st. words st' q = words st q)
           \<and> GetTimeout st' d = GetTimeout st d \<and> GetTcpwin st' d = GetTcpwin st d))"
proof (intro conjI impI)
  assume "GetTlsDecoys (GetDecoyList (config a0)) = []"
  then show "GetDecoy lims getRandInt a0 st0 = (Inr zero_TLSDecoySpec, st0)"
    by (rule GetDecoy_empty)
next
  assume "selects getRandInt a st p d \<and> allocated st d"
  then have "selects getRandInt a st p d" and "allocated st d"
    by simp_all
  then show "\<exists>c st'. GetDecoy lims getRandInt a st = (Inr c, st')
           \<and> GetTimeout st' c
               = (if GetTimeout st d < timeoutMin lims then timeoutMax lims else GetTimeout st d)
           \<and> GetTcpwin st' c
               = (if GetTcpwin st d < sendLimitMin lims then sendLimitMax lims else GetTcpwin st d)
           \<and> Hostname c = Hostname d \<and> Ipv4Addr c = Ipv4Addr d \<and> Ipv6Addr c = Ipv6Addr d
           \<and> Pubkey c = Pubkey d
           \<and> specs st' = specs st \<and> specs st' p = Some d
           \<and> (\<forall>q<next_word st. words st' q = words st q)
           \<and> GetTimeout st' d = GetTimeout st d \<and> GetTcpwin st' d = GetTcpwin st d"
    by (rule GetDecoy_clamps)
qed

theorem GetDecoy_clamps_copy_only_witness:
  "GetTlsDecoys (GetDecoyList (config empty_assets)) = []
   \<and> GetDecoy example_limits (\<lambda>lo hi. lo) empty_assets example_store
       = (Inr zero_TLSDecoySpec, example_store)
   \<and> selects (\<lambda>lo hi. lo) example_assets example_store 0 example_decoy
   \<and> allocated example_store example_decoy
   \<and> GetTimeout example_store example_decoy = 5000
   \<and> (\<exists>c st'. GetDecoy example_limits (\<lambda>lo hi. lo) example_assets example_store = (Inr c, st')
          \<and> GetTimeout st' c = 30000 \<and> GetTcpwin st' c = 15614
          \<and> Hostname c = Hostname example_decoy
          \<and> specs st' = specs example_store \<and> specs st' 0 = Some example_decoy
          \<and> GetTimeout st' example_decoy = 5000 \<and> GetTcpwin st' example_decoy = 0)"
proof -
  have e: "GetTlsDecoys (GetDecoyList (config empty_assets)) = []"
    by (simp add: empty_assets_def GetDecoyList_def GetTlsDecoys_def)
  have s: "selects (\<lambda>lo hi. lo) example_assets example_store 0 example_decoy"
    by (simp add: selects_def example_assets_def example_store_def GetDecoyList_def
        GetTlsDecoys_def)
  have al: "allocated example_store example_decoy"
    by (simp add: allocated_def example_store_def example_decoy_def)
  have t: "GetTimeout example_store example_decoy = 5000"
    and w: "GetTcpwin example_store example_decoy = 0"
    by (simp_all add: GetTimeout_def GetTcpwin_def example_store_def example_decoy_def)
  have lt: "(5000 :: 32 word) < 20000" "(0 :: 32 word) < 14400"
    by simp_all
  from GetDecoy_clamps_copy_only
         [of empty_assets example_limits "\<lambda>lo hi. lo" example_store example_assets
             example_store 0 example_decoy]
  have "GetDecoy example_limits (\<lambda>lo hi. lo) empty_assets example_store
        = (Inr zero_TLSDecoySpec, example_store)"
    and "\<exists>c st'. GetDecoy example_limits (\<lambda>lo hi. lo) example_assets example_store = (Inr c, st')
          \<and> GetTimeout st' c = 30000 \<and> GetTcpwin st' c = 15614
          \<and> Hostname c = Hostname example_decoy
          \<and> specs st' = specs example_store \<and> specs st' 0 = Some example_decoy
          \<and> GetTimeout st' example_decoy = 5000 \<and> GetTcpwin st' example_decoy = 0"
    using e s al t w lt by (simp_all add: example_limits_def) blast
  with e s al t show ?thesis
    by blast
qed

section \<open>Further properties\<close>

text \<open>
  The weighted draw returns. For a secret that starts with a varint, when the unsigned
  weights of the groups sum to less than \<open>2^63 - 1\<close> and at least one of them is not 0, the
  weighted \<open>getSubnets\<close> returns a subnet list: \<open>NewChooser\<close> accepts the choices, the
  binary search of \<open>Pick\<close> ends inside \<open>c.data\<close>, and nothing panics.
\<close>

theorem getSubnets_returns:
  assumes "rng_ok env" and "sort_ok env" and rv: "ReadVarint seed = Some s"
    and sum: "(\<Sum>cj\<leftarrow>WeightedSubnets sc. uint (uint_of_float32 env (Weight cj))) < 2 ^ 63 - 1"
    and some: "\<exists>cj\<in>set (WeightedSubnets sc). uint_of_float32 env (Weight cj) \<noteq> 0"
  shows "\<exists>out g'. getSubnets env io g sc seed True = (Inr out, g')"
proof -
  let ?choices = "map (\<lambda>cjSubnet. \<lparr>Item = Subnets cjSubnet,
           Weight_wr = uint_of_float32 env (Weight cjSubnet)\<rparr>) (WeightedSubnets sc)"
  have "weight_sum ?choices < 2 ^ 63 - 1"
    using sum by (simp add: weight_sum_def comp_def)
  moreover have "\<exists>c\<in>set ?choices. Weight_wr c \<noteq> 0"
    using some by auto
  ultimately obtain c where nc: "NewChooser env ?choices = Some c"
    and c: "0 < sint (max_total c)" "totals c \<noteq> []" "last (totals c) = max_total c"
      "length (totals c) = length (data c)"
    using NewChooser_returns [OF assms(2)] by blast
  from Pick_returns [OF assms(1) c, of "before_Intn io (rand_Seed env s)"] nc rv show ?thesis
    by (simp add: getSubnets_def)
qed

theorem getSubnets_returns_witness:
  "rng_ok example_env \<and> sort_ok example_env \<and> ReadVarint [2] = Some 1
   \<and> (\<Sum>cj\<leftarrow>WeightedSubnets (config_weighted 0).
          uint (uint_of_float32 example_env (Weight cj))) < 2 ^ 63 - 1
   \<and> (\<exists>cj\<in>set (WeightedSubnets (config_weighted 0)).
          uint_of_float32 example_env (Weight cj) \<noteq> 0)
   \<and> (\<exists>out g'. getSubnets example_env alone 0 (config_weighted 0) [2] True = (Inr out, g'))"
proof -
  have z: "uint_of_float32 example_env 0 = 0"
    by (intro uint_of_float32_fraction) simp_all
  have sum: "(\<Sum>cj\<leftarrow>WeightedSubnets (config_weighted 0).
          uint (uint_of_float32 example_env (Weight cj))) < 2 ^ 63 - 1"
    by (simp add: config_weighted_def z uint_of_float32_3)
  have some: "\<exists>cj\<in>set (WeightedSubnets (config_weighted 0)).
          uint_of_float32 example_env (Weight cj) \<noteq> 0"
    by (simp add: config_weighted_def uint_of_float32_3)
  from getSubnets_returns [OF rng_ok_example sort_ok_example ReadVarint_2 sum some, of alone 0]
  show ?thesis
    using rng_ok_example sort_ok_example ReadVarint_2 sum some by blast
qed

text \<open>
  Empty input. Unweighted selection over an empty list of groups, or over groups without
  subnets, fails in \<open>parseSubnets\<close> with "no subnets provided", wrapped by
  \<open>SelectPhantom\<close>, and leaves the generator untouched.
\<close>

theorem SelectPhantom_no_subnets:
  assumes "concat (map Subnets (WeightedSubnets sc)) = []"
  shows "SelectPhantom env io g seed sc f False
         = (Inl (FailedToParseSubnets NoSubnetsProvided), g)"
  using assms by (simp add: SelectPhantom_def getSubnets_unweighted parseSubnets_def)

theorem SelectPhantom_no_subnets_witness:
  "concat (map Subnets (WeightedSubnets \<lparr>WeightedSubnets = []\<rparr>)) = []
   \<and> SelectPhantom example_env alone 0 [2] \<lparr>WeightedSubnets = []\<rparr> None False
       = (Inl (FailedToParseSubnets NoSubnetsProvided), 0)"
  using SelectPhantom_no_subnets [of "\<lparr>WeightedSubnets = []\<rparr>" example_env alone 0 "[2]" None]
  by simp

text \<open>
  Prefix preservation. For a network whose base address has its host bits clear (as
  \<open>net.ParseCIDR\<close> leaves it), the integer that the bytes \<open>SelectAddrFromSubnet\<close> returns
  denote agrees with the base on every bit above the host bits.
\<close>

theorem SelectAddr_keeps_prefix:
  assumes "net_base n mod 2 ^ host_bits n = 0"
    and "SelectAddrFromSubnet env io g seed n = (Inr ip, g')"
  shows "SetBytes ip div 2 ^ host_bits n = net_base n div 2 ^ host_bits n"
  using value_range_prefix [OF assms(1) SelectAddr_value_range [OF assms(2)]] .

theorem SelectAddr_keeps_prefix_witness:
  "net_base net_10_30 mod 2 ^ host_bits net_10_30 = 0
   \<and> SelectAddrFromSubnet example_env alone 0 [2] net_10_30 = (Inr [10, 0, 0, 0], 5)
   \<and> SetBytes [10, 0, 0, 0] div 2 ^ host_bits net_10_30
       = net_base net_10_30 div 2 ^ host_bits net_10_30"
proof -
  have c: "net_base net_10_30 mod 2 ^ host_bits net_10_30 = 0"
    by (simp add: net_base_10_30 host_bits_10_30)
  from SelectAddr_keeps_prefix [OF c SelectAddr_example] c SelectAddr_example
  show ?thesis by blast
qed

text \<open>
  Value range. Whenever \<open>SelectPhantom\<close> succeeds, parsing and filtering have left a list
  of candidate networks, and the big-endian integer the returned bytes denote lies between
  the base of one of them and the base plus two to the number of its host bits. This
  speaks of the integer only; the returned bytes may be fewer than an address has.
\<close>

theorem SelectPhantom_value_in_candidate_range:
  assumes "SelectPhantom env io g seed c f w = (Inr ip, g')"
  shows "\<exists>cands n. candidate_nets env io g seed c f w = Some cands
           \<and> n \<in> set cands \<and> net_base n \<le> SetBytes ip \<and> SetBytes ip < net_base n + 2 ^ host_bits n"
proof -
  from assms obtain strs g1 where gs: "getSubnets env io g c seed w = (Inr strs, g1)"
    by (auto simp: SelectPhantom_def split: prod.splits sum.splits)
  from assms gs obtain s where ps: "parseSubnets env strs = Inr s"
    by (auto simp: SelectPhantom_def split: sum.splits)
  show ?thesis
  proof (cases f)
    case None
    with assms gs ps have "selectIPAddr env io g1 seed s = (Inr ip, g')"
      by (simp add: SelectPhantom_def)
    from selectIPAddr_value_range [OF this] None gs ps show ?thesis
      by (auto simp: candidate_nets_def)
  next
    case (Some t)
    with assms gs ps obtain s' where t: "t s = Inr s'"
      and "selectIPAddr env io g1 seed s' = (Inr ip, g')"
      by (auto simp: SelectPhantom_def split: sum.splits)
    from selectIPAddr_value_range [OF this(2)] Some gs ps t show ?thesis
      by (auto simp: candidate_nets_def)
  qed
qed

theorem SelectPhantom_value_in_candidate_range_witness:
  "SelectPhantom example_env alone 0 [2] config_10_30 None False = (Inr [10, 0, 0, 0], 5)
   \<and> (\<exists>cands n. candidate_nets example_env alone 0 [2] config_10_30 None False = Some cands
          \<and> n \<in> set cands \<and> net_base n \<le> SetBytes [10, 0, 0, 0]
          \<and> SetBytes [10, 0, 0, 0] < net_base n + 2 ^ host_bits n)"
  using SelectPhantom_value_in_candidate_range [OF SelectPhantom_example] SelectPhantom_example
  by simp

text \<open>
  Undisturbed determinism. The result of \<open>SelectPhantom\<close> does not depend on the state in
  which it finds the process-wide generator, and two invocations that have the generator
  to themselves between every \<open>rand.Seed\<close> and the draw that follows it return the same
  result, whether they start from unrelated generator states (two processes) or the second
  starts from the state the first has left (one after the other in one process).
\<close>

theorem SelectPhantom_deterministic_alone:
  "fst (SelectPhantom env io g1 seed c f w) = fst (SelectPhantom env io g2 seed c f w)
   \<and> fst (SelectPhantom env alone g1 seed c f w) = fst (SelectPhantom env alone g2 seed c f w)
   \<and> fst (SelectPhantom env alone (snd (SelectPhantom env alone g1 seed c f w)) seed c f w)
       = fst (SelectPhantom env alone g1 seed c f w)"
  using SelectPhantom_indep [of env io g1 seed c f w g2]
    SelectPhantom_indep [of env alone g1 seed c f w g2]
    SelectPhantom_indep [of env alone "snd (SelectPhantom env alone g1 seed c f w)" seed c f w g1]
  by simp

end
